theory Spec2Isabelle
  imports Main
begin

section \<open>The webhook-forwarding endpoint client (pkg/proxy/endpoint.go)\<close>

text \<open>
  Go strings are byte sequences, so a Go \<^verbatim>\<open>string\<close> is a \<^typ>\<open>string\<close> here: a list of
  8-bit characters. A Go \<^verbatim>\<open>map[string]string\<close> is a partial function; the order in
  which a \<^verbatim>\<open>range\<close> statement visits a map is not fixed by Go and is therefore an
  explicit argument wherever the code iterates over a map.
\<close>

subsection \<open>Runtime faults\<close>

datatype panic =
    IndexOutOfRange nat nat   \<comment> \<open>index, length: "index out of range [i] with length n"\<close>
  | NilPointerDereference

definition index :: "'a list \<Rightarrow> nat \<Rightarrow> panic + 'a" where
  \<comment> \<open>the slice expression \<^verbatim>\<open>xs[i]\<close>, bounds-checked by the Go runtime\<close>
  "index xs i = (if i < length xs then Inr (xs ! i) else Inl (IndexOutOfRange i (length xs)))"

subsection \<open>Library functions used by the normalizers\<close>

definition isControl :: "char \<Rightarrow> bool" where
  \<comment> \<open>the character class \<^verbatim>\<open>[\x00-\x1f]\<close>\<close>
  "isControl c = ((of_char c :: nat) \<le> 0x1f)"

text \<open>
  \<^verbatim>\<open>reg.ReplaceAllString(s, repl)\<close> for \<^verbatim>\<open>reg = regexp.MustCompile("[\x00-\x1f]+")\<close>: every
  maximal run of control bytes is replaced by \<^verbatim>\<open>repl\<close>, everything else is copied.
\<close>

function ReplaceAllString :: "string \<Rightarrow> string \<Rightarrow> string" where
  "ReplaceAllString [] repl = []"
| "ReplaceAllString (c # cs) repl =
     (if isControl c then repl @ ReplaceAllString (dropWhile isControl cs) repl
      else c # ReplaceAllString cs repl)"
  by pat_completeness auto
termination
  by (relation "measure (\<lambda>(s, repl). length s)")
     (auto simp: le_imp_less_Suc length_dropWhile_le)

text \<open>
  \<^verbatim>\<open>strings.SplitN(s, sep, n)\<close> for a one-byte separator and \<^verbatim>\<open>n \<ge> 0\<close>: at most
  \<^verbatim>\<open>n\<close> pieces, the last one being the unsplit remainder; \<^verbatim>\<open>n = 0\<close> gives no piece.
\<close>

fun SplitN :: "string \<Rightarrow> char \<Rightarrow> nat \<Rightarrow> string list" where
  "SplitN s sep 0 = []"
| "SplitN s sep (Suc 0) = [s]"
| "SplitN s sep (Suc (Suc n)) =
     (if sep \<in> set s
      then takeWhile (\<lambda>c. c \<noteq> sep) s # SplitN (tl (dropWhile (\<lambda>c. c \<noteq> sep) s)) sep (Suc n)
      else [s])"

text \<open>
  \<^verbatim>\<open>strings.TrimSpace\<close> removes leading and trailing runes for which \<^verbatim>\<open>unicode.IsSpace\<close>
  holds. On the bytes of the string these are the UTF-8 encodings of U+0009..U+000D,
  U+0020, U+0085, U+00A0, U+1680, U+2000..U+200A, U+2028, U+2029, U+202F, U+205F and
  U+3000; a byte sequence that is not valid UTF-8 decodes to U+FFFD, which is no space.
\<close>

definition spaceEncodings :: "nat list list" where
  "spaceEncodings =
     [[0x09], [0x0A], [0x0B], [0x0C], [0x0D], [0x20],
      [0xC2, 0x85], [0xC2, 0xA0],
      [0xE1, 0x9A, 0x80],
      [0xE2, 0x80, 0x80], [0xE2, 0x80, 0x81], [0xE2, 0x80, 0x82], [0xE2, 0x80, 0x83],
      [0xE2, 0x80, 0x84], [0xE2, 0x80, 0x85], [0xE2, 0x80, 0x86], [0xE2, 0x80, 0x87],
      [0xE2, 0x80, 0x88], [0xE2, 0x80, 0x89], [0xE2, 0x80, 0x8A],
      [0xE2, 0x80, 0xA8], [0xE2, 0x80, 0xA9], [0xE2, 0x80, 0xAF],
      [0xE2, 0x81, 0x9F],
      [0xE3, 0x80, 0x80]]"

definition isSpace :: "string \<Rightarrow> bool" where
  \<comment> \<open>the bytes are the encoding of one rune, and \<^verbatim>\<open>unicode.IsSpace\<close> holds of it\<close>
  "isSpace bs = (map of_char bs \<in> set spaceEncodings)"

definition leadingSpace :: "string \<Rightarrow> nat" where
  \<comment> \<open>the width of the space rune the string starts with, 0 when it starts with none\<close>
  "leadingSpace s =
     (if 1 \<le> length s \<and> isSpace (take 1 s) then 1
      else if 2 \<le> length s \<and> isSpace (take 2 s) then 2
      else if 3 \<le> length s \<and> isSpace (take 3 s) then 3 else 0)"

definition trailingSpace :: "string \<Rightarrow> nat" where
  \<comment> \<open>the width of the space rune the string ends with, 0 when it ends with none\<close>
  "trailingSpace s =
     (if 1 \<le> length s \<and> isSpace (drop (length s - 1) s) then 1
      else if 2 \<le> length s \<and> isSpace (drop (length s - 2) s) then 2
      else if 3 \<le> length s \<and> isSpace (drop (length s - 3) s) then 3 else 0)"

function TrimLeft :: "string \<Rightarrow> string" where
  "TrimLeft s = (if leadingSpace s = 0 then s else TrimLeft (drop (leadingSpace s) s))"
  by pat_completeness auto
termination
proof (relation "measure length")
  show "wf (measure length)" by simp
next
  fix s :: string
  assume "leadingSpace s \<noteq> 0"
  moreover have "leadingSpace s \<le> length s"
    by (simp add: leadingSpace_def)
  ultimately show "(drop (leadingSpace s) s, s) \<in> measure length"
    by simp
qed

function TrimRight :: "string \<Rightarrow> string" where
  "TrimRight s =
     (if trailingSpace s = 0 then s else TrimRight (take (length s - trailingSpace s) s))"
  by pat_completeness auto
termination
proof (relation "measure length")
  show "wf (measure length)" by simp
next
  fix s :: string
  assume "trailingSpace s \<noteq> 0"
  moreover have "trailingSpace s \<le> length s"
    by (simp add: trailingSpace_def)
  ultimately show "(take (length s - trailingSpace s) s, s) \<in> measure length"
    by simp
qed

definition TrimSpace :: "string \<Rightarrow> string" where
  "TrimSpace s = TrimRight (TrimLeft s)"

subsection \<open>Header and event normalizers\<close>

text \<open>
  \<^verbatim>\<open>convertToMap\<close>: the loop \<^verbatim>\<open>for _, event := range events { eventsMap[event] = true }\<close>.
\<close>

fun convertToMap_loop :: "string list \<Rightarrow> (string \<rightharpoonup> bool) \<Rightarrow> (string \<rightharpoonup> bool)" where
  "convertToMap_loop [] eventsMap = eventsMap"
| "convertToMap_loop (event # rest) eventsMap = convertToMap_loop rest (eventsMap(event \<mapsto> True))"

definition convertToMap :: "string list \<Rightarrow> (string \<rightharpoonup> bool)" where
  "convertToMap events = convertToMap_loop events Map.empty"

text \<open>
  \<^verbatim>\<open>convertToMapAndSanitize\<close>: each entry is stripped of control bytes, split at the first
  colon into at most two pieces, and pieces 0 and 1 are read by index. The function has no
  error result; reading piece 1 of a one-piece split is a runtime fault, which ends the call.
\<close>

fun convertToMapAndSanitize_loop ::
  "string list \<Rightarrow> (string \<rightharpoonup> string) \<Rightarrow> panic + (string \<rightharpoonup> string)" where
  "convertToMapAndSanitize_loop [] headerMap = Inr headerMap"
| "convertToMapAndSanitize_loop (header # rest) headerMap =
     (let header' = ReplaceAllString header [];
          splitHeader = SplitN header' (CHR '':'') 2
      in case index splitHeader 0 of
           Inl p \<Rightarrow> Inl p
         | Inr s0 \<Rightarrow>
             (let headerKey = TrimSpace s0
              in case index splitHeader 1 of
                   Inl p \<Rightarrow> Inl p
                 | Inr s1 \<Rightarrow>
                     (let headerVal = TrimSpace s1
                      in convertToMapAndSanitize_loop rest
                           (if headerKey \<noteq> [] then headerMap(headerKey \<mapsto> headerVal)
                            else headerMap))))"

definition convertToMapAndSanitize :: "string list \<Rightarrow> panic + (string \<rightharpoonup> string)" where
  "convertToMapAndSanitize headers = convertToMapAndSanitize_loop headers Map.empty"

subsection \<open>Data model\<close>

datatype error = Error string   \<comment> \<open>a Go \<^verbatim>\<open>error\<close> value, told apart by its message\<close>

datatype FailedToPostError = FailedToPostError error   \<comment> \<open>the field \<^verbatim>\<open>Err\<close>\<close>

text \<open>
  Modelled from the spec: the package \<^verbatim>\<open>websocket\<close> (\<^verbatim>\<open>IElement\<close>, \<^verbatim>\<open>ErrorElement\<close>) and
  the type \<^verbatim>\<open>eventContext\<close> are declared outside this file. The spec has an error element
  "carrying the wrapped failure" and an event context
  \<^verbatim>\<open>{requestBody: bytes, requestHeaders: mapping string -> string}\<close>; the code ranges over
  \<^verbatim>\<open>requestHeaders\<close> with string keys and values and converts \<^verbatim>\<open>requestBody\<close> to bytes.
\<close>

datatype IElement = ErrorElement FailedToPostError

record eventContext =
  requestBody :: string
  requestHeaders :: "string \<rightharpoonup> string"

text \<open>The parts of \<^verbatim>\<open>http.Request\<close>, \<^verbatim>\<open>http.Response\<close>, \<^verbatim>\<open>http.Client\<close> and
  \<^verbatim>\<open>logrus.Logger\<close> that the code reads or writes. \<^verbatim>\<open>http.Header\<close> is
  \<^verbatim>\<open>map[string][]string\<close>; \<^verbatim>\<open>time.Duration\<close> counts nanoseconds.\<close>

record Request =
  Method :: string
  RequestURL :: string
  Header :: "string \<rightharpoonup> string list"
  Body :: string
  Host :: string

record Response =
  StatusCode :: int
  ResponseBody :: string

record Client =
  CheckRedirect :: "(Request \<Rightarrow> Request list \<Rightarrow> error option) option"
  Timeout :: int

datatype writer = Discard | Writer string

record Logger =
  Out :: writer
  Level :: nat   \<comment> \<open>logrus levels: 0 is \<^verbatim>\<open>PanicLevel\<close>, the zero value; 5 is \<^verbatim>\<open>DebugLevel\<close>\<close>

type_synonym chan = nat   \<comment> \<open>a channel is a reference; \<^verbatim>\<open>nil\<close> is \<open>None\<close> of \<open>chan option\<close>\<close>

text \<open>A response handler returns nothing; what it does is the list of actions it performs.\<close>

type_synonym EndpointResponseHandler = "eventContext \<Rightarrow> string \<Rightarrow> Response \<Rightarrow> string list"

record EndpointConfig =
  HTTPClient :: "Client option"
  Log :: "Logger option"
  ResponseHandler :: "EndpointResponseHandler option"
  OutCh :: "chan option"

record EndpointClient =
  URL :: string
  headers :: "string \<rightharpoonup> string"
  connect :: bool
  events :: "string \<rightharpoonup> bool"
  cfg :: EndpointConfig
  isEventDestination :: bool

subsection \<open>Routing predicates\<close>

definition mapContains :: "(string \<rightharpoonup> bool) \<Rightarrow> string \<Rightarrow> bool" where
  \<comment> \<open>the map read \<^verbatim>\<open>m[k]\<close> of a \<^verbatim>\<open>map[string]bool\<close>: a missing key reads as \<^verbatim>\<open>false\<close>\<close>
  "mapContains m k = (case m k of None \<Rightarrow> False | Some b \<Rightarrow> b)"

definition SupportsEventType :: "EndpointClient \<Rightarrow> bool \<Rightarrow> string \<Rightarrow> bool" where
  "SupportsEventType c connect' eventType =
     (if connect' \<noteq> connect c then False
      else if mapContains (events c) ''*'' \<or> mapContains (events c) eventType then True
      else False)"

definition SupportsContext :: "EndpointClient \<Rightarrow> string \<Rightarrow> bool" where
  "SupportsContext c context = (if connect c then context \<noteq> [] else context = [])"

subsection \<open>Library functions used by the send operations\<close>

definition validHeaderFieldByte :: "char \<Rightarrow> bool" where
  \<comment> \<open>the token characters of RFC 7230\<close>
  "validHeaderFieldByte c =
     (let n = (of_char c :: nat)
      in (48 \<le> n \<and> n \<le> 57) \<or> (97 \<le> n \<and> n \<le> 122) \<or> (65 \<le> n \<and> n \<le> 90) \<or>
         n \<in> set [0x21, 0x23, 0x24, 0x25, 0x26, 0x27, 0x2A, 0x2B, 0x2D, 0x2E, 0x5E, 0x5F,
                   0x60, 0x7C, 0x7E])"

definition isLower :: "char \<Rightarrow> bool" where
  "isLower c = (97 \<le> (of_char c :: nat) \<and> (of_char c :: nat) \<le> 122)"

definition isUpper :: "char \<Rightarrow> bool" where
  "isUpper c = (65 \<le> (of_char c :: nat) \<and> (of_char c :: nat) \<le> 90)"

definition toUpperByte :: "char \<Rightarrow> char" where
  "toUpperByte c = (if isLower c then char_of ((of_char c :: nat) - 32) else c)"

definition toLowerByte :: "char \<Rightarrow> char" where
  "toLowerByte c = (if isUpper c then char_of ((of_char c :: nat) + 32) else c)"

fun canonicalLoop :: "bool \<Rightarrow> string \<Rightarrow> string" where
  "canonicalLoop upper [] = []"
| "canonicalLoop upper (c # cs) =
     (let c' = (if upper \<and> isLower c then toUpperByte c
                else if \<not> upper \<and> isUpper c then toLowerByte c else c)
      in c' # canonicalLoop (c' = CHR ''-'') cs)"

definition CanonicalMIMEHeaderKey :: "string \<Rightarrow> string" where
  \<comment> \<open>\<^verbatim>\<open>textproto.CanonicalMIMEHeaderKey\<close>: a key with a space or another byte that is no
      token character is returned as it is\<close>
  "CanonicalMIMEHeaderKey s = (if list_all validHeaderFieldByte s then canonicalLoop True s else s)"

definition Header_Add :: "(string \<rightharpoonup> string list) \<Rightarrow> string \<Rightarrow> string \<Rightarrow> (string \<rightharpoonup> string list)" where
  \<comment> \<open>\<^verbatim>\<open>h.Add(key, value)\<close>: appends to the values of the canonical key\<close>
  "Header_Add h key val =
     (let k = CanonicalMIMEHeaderKey key
      in h(k \<mapsto> (case h k of None \<Rightarrow> [] | Some vs \<Rightarrow> vs) @ [val]))"

definition Header_Get :: "(string \<rightharpoonup> string list) \<Rightarrow> string \<Rightarrow> string" where
  \<comment> \<open>\<^verbatim>\<open>h.Get(key)\<close>: the first value of the canonical key, \<^verbatim>\<open>""\<close> when there is none\<close>
  "Header_Get h key =
     (case h (CanonicalMIMEHeaderKey key) of None \<Rightarrow> [] | Some [] \<Rightarrow> [] | Some (v # _) \<Rightarrow> v)"

definition ToLower :: "string \<Rightarrow> string" where
  \<comment> \<open>\<^verbatim>\<open>strings.ToLower\<close> on the ASCII letters. Go also lowers runes beyond ASCII; none of
      them lowers to \<^verbatim>\<open>h\<close>, \<^verbatim>\<open>o\<close>, \<^verbatim>\<open>s\<close> or \<^verbatim>\<open>t\<close>, so the comparison with \<^verbatim>\<open>"host"\<close> is the same\<close>
  "ToLower s = map toLowerByte s"

text \<open>
  What lies outside the program: \<^verbatim>\<open>url.Parse\<close> inside \<^verbatim>\<open>http.NewRequest\<close> (the host of
  the parsed URL, or the parse error) and the network behind \<^verbatim>\<open>(*http.Client).Do\<close>.
\<close>

record World =
  urlParse :: "string \<Rightarrow> error + string"
  Do :: "Client \<Rightarrow> Request \<Rightarrow> error + Response"

definition NewRequest :: "World \<Rightarrow> string \<Rightarrow> string \<Rightarrow> string \<Rightarrow> error + Request" where
  \<comment> \<open>\<^verbatim>\<open>http.NewRequest(method, url, body)\<close> for a valid method: fails iff the URL does not
      parse; the new request has an empty header and the URL's host\<close>
  "NewRequest w method url body =
     (case urlParse w url of
        Inl err \<Rightarrow> Inl err
      | Inr host \<Rightarrow>
          Inr \<lparr>Method = method, RequestURL = url, Header = Map.empty, Body = body, Host = host\<rparr>)"

definition DefaultClient :: Client where
  \<comment> \<open>\<^verbatim>\<open>http.DefaultClient = &Client{}\<close>\<close>
  "DefaultClient = \<lparr>CheckRedirect = None, Timeout = 0\<rparr>"

definition ErrUseLastResponse :: error where
  "ErrUseLastResponse = Error ''net/http: use last response''"

definition Second :: int where
  "Second = 1000000000"

subsection \<open>Effects and outcomes of a call\<close>

datatype effect =
    LogDebug Logger "(string \<times> string) list" string   \<comment> \<open>logger, fields, message\<close>
  | HTTPDo Client Request                              \<comment> \<open>the request handed to a transport\<close>
  | ChanSend chan IElement                             \<comment> \<open>an element sent on a channel\<close>
  | ProcessResponse eventContext string Response       \<comment> \<open>the handler is invoked\<close>
  | HandlerAction string                               \<comment> \<open>what the handler does\<close>
  | BodyClose Response                                 \<comment> \<open>\<^verbatim>\<open>resp.Body.Close()\<close>\<close>

datatype blocked = SendOnNilChannel IElement

datatype 'a outcome =
    Returned 'a
  | Panicked panic
  | BlockedForever blocked   \<comment> \<open>a send on a \<^verbatim>\<open>nil\<close> channel never proceeds\<close>

definition rangeOrder :: "('k \<rightharpoonup> 'v) \<Rightarrow> ('k \<times> 'v) list \<Rightarrow> bool" where
  \<comment> \<open>the list is one order in which \<^verbatim>\<open>range\<close> may visit the entries of the map\<close>
  "rangeOrder m kvs = (distinct (map fst kvs) \<and> map_of kvs = m)"

subsection \<open>The send operations\<close>

text \<open>
  \<^verbatim>\<open>Post\<close> and \<^verbatim>\<open>PostV2\<close>, with the orders in which the two \<^verbatim>\<open>range\<close> loops visit
  \<^verbatim>\<open>evtCtx.requestHeaders\<close> and \<^verbatim>\<open>c.headers\<close>. The result is the outcome of the call (the
  returned \<^verbatim>\<open>error\<close>, \<open>None\<close> for \<^verbatim>\<open>nil\<close>) and the effects in the order they happen. A send
  on a channel that is not \<^verbatim>\<open>nil\<close> is taken to be accepted by its receiver.
\<close>

definition Post ::
  "World \<Rightarrow> EndpointClient \<Rightarrow> eventContext \<Rightarrow> (string \<times> string) list \<Rightarrow> (string \<times> string) list
     \<Rightarrow> error option outcome \<times> effect list" where
  "Post w c evtCtx evtOrder hdrOrder =
     (case Log (cfg c) of
        None \<Rightarrow> (Panicked NilPointerDereference, [])
      | Some lg \<Rightarrow>
          (let t0 = [LogDebug lg [(''prefix'', ''proxy.EndpointClient.Post'')]
                       ''Forwarding event to local endpoint'']
           in case NewRequest w ''POST'' (URL c) (requestBody evtCtx) of
                Inl err \<Rightarrow> (Returned (Some err), t0)
              | Inr req0 \<Rightarrow>
                  (let req1 = fold (\<lambda>(k, v) req. req\<lparr>Header := Header_Add (Header req) k v\<rparr>)
                                evtOrder req0;
                       req2 = fold (\<lambda>(k, v) req.
                                      if ToLower k = ''host'' then req\<lparr>Host := v\<rparr>
                                      else req\<lparr>Header := Header_Add (Header req) k v\<rparr>)
                                hdrOrder req1
                   in case HTTPClient (cfg c) of
                        None \<Rightarrow> (Panicked NilPointerDereference, t0)
                      | Some hc \<Rightarrow>
                          (case Do w hc req2 of
                             Inl err \<Rightarrow>
                               (case OutCh (cfg c) of
                                  None \<Rightarrow>
                                    (BlockedForever
                                       (SendOnNilChannel (ErrorElement (FailedToPostError err))),
                                     t0 @ [HTTPDo hc req2])
                                | Some ch \<Rightarrow>
                                    (Returned (Some err),
                                     t0 @ [HTTPDo hc req2,
                                           ChanSend ch (ErrorElement (FailedToPostError err))]))
                           | Inr resp \<Rightarrow>
                               (case ResponseHandler (cfg c) of
                                  None \<Rightarrow>
                                    (Panicked NilPointerDereference,
                                     t0 @ [HTTPDo hc req2, BodyClose resp])
                                | Some h \<Rightarrow>
                                    (Returned None,
                                     t0 @ [HTTPDo hc req2, ProcessResponse evtCtx (URL c) resp]
                                        @ map HandlerAction (h evtCtx (URL c) resp)
                                        @ [BodyClose resp]))))))"

definition PostV2 ::
  "World \<Rightarrow> EndpointClient \<Rightarrow> eventContext \<Rightarrow> (string \<times> string) list \<Rightarrow> (string \<times> string) list
     \<Rightarrow> error option outcome \<times> effect list" where
  "PostV2 w c evtCtx evtOrder hdrOrder =
     (case NewRequest w ''POST'' (URL c) (requestBody evtCtx) of
        Inl err \<Rightarrow> (Returned (Some err), [])
      | Inr req0 \<Rightarrow>
          (let req1 = fold (\<lambda>(k, v) req. req\<lparr>Header := Header_Add (Header req) k v\<rparr>)
                        evtOrder req0;
               req2 = fold (\<lambda>(k, v) req.
                              if ToLower k = ''host'' then req\<lparr>Host := v\<rparr>
                              else req\<lparr>Header := Header_Add (Header req) k v\<rparr>)
                        hdrOrder req1
           in case Do w DefaultClient req2 of
                Inl err \<Rightarrow>
                  (case OutCh (cfg c) of
                     None \<Rightarrow>
                       (BlockedForever (SendOnNilChannel (ErrorElement (FailedToPostError err))),
                        [HTTPDo DefaultClient req2])
                   | Some ch \<Rightarrow>
                       (Returned (Some err),
                        [HTTPDo DefaultClient req2,
                         ChanSend ch (ErrorElement (FailedToPostError err))]))
              | Inr resp \<Rightarrow>
                  (case ResponseHandler (cfg c) of
                     None \<Rightarrow>
                       (Panicked NilPointerDereference, [HTTPDo DefaultClient req2, BodyClose resp])
                   | Some h \<Rightarrow>
                       (Returned None,
                        [HTTPDo DefaultClient req2, ProcessResponse evtCtx (URL c) resp]
                          @ map HandlerAction (h evtCtx (URL c) resp)
                          @ [BodyClose resp]))))"

subsection \<open>The factory\<close>

definition defaultTimeout :: int where
  "defaultTimeout = 30 * Second"

text \<open>
  \<^verbatim>\<open>NewEndpointClient\<close> fills the configuration it is given in place and keeps the pointer
  in the client. The first component of the result is the configuration struct after the
  call; the second is the client, or the fault of the header normalizer, which is called
  after the defaults are filled.
\<close>

definition NewEndpointClient ::
  "string \<Rightarrow> string list \<Rightarrow> bool \<Rightarrow> string list \<Rightarrow> bool \<Rightarrow> EndpointConfig option
     \<Rightarrow> EndpointConfig \<times> (panic + EndpointClient)" where
  "NewEndpointClient url hdrs connect' evs isEventDestination' cfg0 =
     (let cfg1 = (case cfg0 of
                    None \<Rightarrow> \<lparr>HTTPClient = None, Log = None, ResponseHandler = None, OutCh = None\<rparr>
                  | Some given \<Rightarrow> given);
          cfg2 = (if Log cfg1 = None then cfg1\<lparr>Log := Some \<lparr>Out = Discard, Level = 0\<rparr>\<rparr>
                  else cfg1);
          cfg3 = (if HTTPClient cfg2 = None
                  then cfg2\<lparr>HTTPClient :=
                              Some \<lparr>CheckRedirect = Some (\<lambda>req via. Some ErrUseLastResponse),
                                    Timeout = defaultTimeout\<rparr>\<rparr>
                  else cfg2);
          cfg4 = (if ResponseHandler cfg3 = None
                  then cfg3\<lparr>ResponseHandler := Some (\<lambda>evtCtx url resp. [])\<rparr>
                  else cfg3)
      in (cfg4,
          case convertToMapAndSanitize hdrs of
            Inl p \<Rightarrow> Inl p
          | Inr headerMap \<Rightarrow>
              Inr \<lparr>URL = url, headers = headerMap, connect = connect',
                   events = convertToMap evs, cfg = cfg4,
                   isEventDestination = isEventDestination'\<rparr>))"

subsection \<open>Observations on the effects of a call\<close>

definition sentRequests :: "effect list \<Rightarrow> Request list" where
  "sentRequests tr = concat (map (\<lambda>e. case e of HTTPDo hc req \<Rightarrow> [req] | _ \<Rightarrow> []) tr)"

definition usedClients :: "effect list \<Rightarrow> Client list" where
  "usedClients tr = concat (map (\<lambda>e. case e of HTTPDo hc req \<Rightarrow> [hc] | _ \<Rightarrow> []) tr)"

definition chanSends :: "effect list \<Rightarrow> (chan \<times> IElement) list" where
  "chanSends tr = concat (map (\<lambda>e. case e of ChanSend ch el \<Rightarrow> [(ch, el)] | _ \<Rightarrow> []) tr)"

definition handlerCalls :: "effect list \<Rightarrow> (eventContext \<times> string \<times> Response) list" where
  "handlerCalls tr =
     concat (map (\<lambda>e. case e of ProcessResponse ctx url resp \<Rightarrow> [(ctx, url, resp)] | _ \<Rightarrow> []) tr)"

definition bodyCloses :: "effect list \<Rightarrow> Response list" where
  "bodyCloses tr = concat (map (\<lambda>e. case e of BodyClose resp \<Rightarrow> [resp] | _ \<Rightarrow> []) tr)"

definition logLines :: "effect list \<Rightarrow> (Logger \<times> (string \<times> string) list \<times> string) list" where
  "logLines tr =
     concat (map (\<lambda>e. case e of LogDebug lg flds msg \<Rightarrow> [(lg, flds, msg)] | _ \<Rightarrow> []) tr)"

definition withoutLog :: "effect list \<Rightarrow> effect list" where
  "withoutLog tr = filter (\<lambda>e. case e of LogDebug lg flds msg \<Rightarrow> False | _ \<Rightarrow> True) tr"

definition viaClient :: "Client \<Rightarrow> effect list \<Rightarrow> effect list" where
  \<comment> \<open>the same effects, with every transport call made through the given client\<close>
  "viaClient hc tr = map (\<lambda>e. case e of HTTPDo hc' req \<Rightarrow> HTTPDo hc req | _ \<Rightarrow> e) tr"

text \<open>The values a list of visited headers contributes to one canonical key, and the
  visited headers whose key is, and is not, \<^verbatim>\<open>host\<close> up to case.\<close>

definition valuesFor :: "(string \<times> string) list \<Rightarrow> string \<Rightarrow> string list" where
  "valuesFor kvs K = map snd (filter (\<lambda>(k, v). CanonicalMIMEHeaderKey k = K) kvs)"

definition hostHeaders :: "(string \<times> string) list \<Rightarrow> (string \<times> string) list" where
  "hostHeaders kvs = filter (\<lambda>(k, v). ToLower k = ''host'') kvs"

definition plainHeaders :: "(string \<times> string) list \<Rightarrow> (string \<times> string) list" where
  "plainHeaders kvs = filter (\<lambda>(k, v). ToLower k \<noteq> ''host'') kvs"

text \<open>A request after the event's headers and then the client's headers are applied to
  it; the lemmas below show that this is the request \<^verbatim>\<open>Post\<close> and \<^verbatim>\<open>PostV2\<close> hand over.\<close>

definition withHeaders :: "(string \<times> string) list \<Rightarrow> (string \<times> string) list \<Rightarrow> Request \<Rightarrow> Request" where
  "withHeaders evtOrder hdrOrder req0 =
     fold (\<lambda>(k, v) req. if ToLower k = ''host'' then req\<lparr>Host := v\<rparr>
                         else req\<lparr>Header := Header_Add (Header req) k v\<rparr>)
       hdrOrder
       (fold (\<lambda>(k, v) req. req\<lparr>Header := Header_Add (Header req) k v\<rparr>) evtOrder req0)"

definition someValues :: "string list \<Rightarrow> string list option" where
  \<comment> \<open>a key of a header map that holds values, or is absent\<close>
  "someValues vs = (if vs = [] then None else Some vs)"

subsection \<open>Sample inputs\<close>

definition exWorld :: World where
  \<comment> \<open>the URL parses and the endpoint answers 200\<close>
  "exWorld =
     \<lparr>urlParse = (\<lambda>u. if u = ''http://localhost:3000'' then Inr ''localhost:3000''
                       else Inl (Error ''invalid URL'')),
      Do = (\<lambda>hc req. Inr \<lparr>StatusCode = 200, ResponseBody = ''ok''\<rparr>)\<rparr>"

definition exWorldDown :: World where
  \<comment> \<open>the URL parses and nothing listens at the endpoint\<close>
  "exWorldDown =
     \<lparr>urlParse = (\<lambda>u. if u = ''http://localhost:3000'' then Inr ''localhost:3000''
                       else Inl (Error ''invalid URL'')),
      Do = (\<lambda>hc req. Inl (Error ''connection refused''))\<rparr>"

definition exEvent :: eventContext where
  "exEvent = \<lparr>requestBody = ''{}'', requestHeaders = [''X-Foo'' \<mapsto> ''event'']\<rparr>"

subsection \<open>The normalizer as the specification words it\<close>

text \<open>
  The specification's \<^verbatim>\<open>normalizeHeaders\<close>: each entry is stripped of the control bytes
  0x00..0x1F and split on its first colon; key and value are trimmed of surrounding
  whitespace; entries with an empty key are discarded; of two entries with one key the
  later wins (\<open>map_of\<close> reads the first pair of the reversed list).
\<close>

definition specKey :: "string \<Rightarrow> string" where
  "specKey h = TrimSpace (takeWhile (\<lambda>c. c \<noteq> CHR '':'') (filter (\<lambda>c. \<not> isControl c) h))"

definition specVal :: "string \<Rightarrow> string" where
  "specVal h =
     TrimSpace (drop 1 (dropWhile (\<lambda>c. c \<noteq> CHR '':'') (filter (\<lambda>c. \<not> isControl c) h)))"

definition normalizeHeaders_spec :: "string list \<Rightarrow> (string \<rightharpoonup> string)" where
  "normalizeHeaders_spec raw =
     map_of (rev (filter (\<lambda>(k, v). k \<noteq> []) (map (\<lambda>h. (specKey h, specVal h)) raw)))"

text \<open>A string made of space runes only.\<close>

inductive onlySpace :: "string \<Rightarrow> bool" where
  onlySpace_Nil: "onlySpace []"
| onlySpace_rune: "isSpace w \<Longrightarrow> onlySpace s \<Longrightarrow> onlySpace (w @ s)"

section \<open>Properties of the normalizers\<close>

subsection \<open>Library functions\<close>

lemma filter_dropWhile_neg: "filter (\<lambda>c. \<not> P c) (dropWhile P xs) = filter (\<lambda>c. \<not> P c) xs"
  by (induction xs) auto

lemma ReplaceAllString_empty: "ReplaceAllString s [] = filter (\<lambda>c. \<not> isControl c) s"
  by (induction s "[] :: string" rule: ReplaceAllString.induct)
     (simp_all add: filter_dropWhile_neg)

lemma SplitN_2:
  "SplitN s sep 2 =
     (if sep \<in> set s then [takeWhile (\<lambda>c. c \<noteq> sep) s, tl (dropWhile (\<lambda>c. c \<noteq> sep) s)]
      else [s])"
  by (simp add: numeral_2_eq_2)

lemma colon_not_control: "\<not> isControl (CHR '':'')"
  by (simp add: isControl_def)

lemma colon_survives: "CHR '':'' \<in> set (ReplaceAllString h []) \<longleftrightarrow> CHR '':'' \<in> set h"
  by (auto simp: ReplaceAllString_empty colon_not_control)

lemma onlySpace_append: "onlySpace a \<Longrightarrow> onlySpace b \<Longrightarrow> onlySpace (a @ b)"
proof (induction a rule: onlySpace.induct)
  case onlySpace_Nil
  then show ?case by simp
next
  case (onlySpace_rune w s)
  then have "onlySpace (w @ (s @ b))"
    using onlySpace.onlySpace_rune [of w "s @ b"] by simp
  then show ?case by simp
qed

lemma onlySpace_single: "isSpace w \<Longrightarrow> onlySpace w"
  using onlySpace_rune [OF _ onlySpace_Nil, of w] by simp

lemma leadingSpace_isSpace: "leadingSpace s \<noteq> 0 \<Longrightarrow> isSpace (take (leadingSpace s) s)"
  by (auto simp: leadingSpace_def split: if_splits)

lemma trailingSpace_isSpace:
  "trailingSpace s \<noteq> 0 \<Longrightarrow> isSpace (drop (length s - trailingSpace s) s)"
  by (auto simp: trailingSpace_def split: if_splits)

declare TrimLeft.simps [simp del] TrimRight.simps [simp del]

lemma TrimLeft_decompose: "\<exists>pre. s = pre @ TrimLeft s \<and> onlySpace pre"
proof (induction s rule: TrimLeft.induct)
  case (1 s)
  show ?case
  proof (cases "leadingSpace s = 0")
    case True
    then have "TrimLeft s = s" by (simp add: TrimLeft.simps)
    then show ?thesis using onlySpace_Nil by auto
  next
    case False
    from 1 [OF False] obtain pre where
      pre: "drop (leadingSpace s) s = pre @ TrimLeft (drop (leadingSpace s) s)" "onlySpace pre"
      by blast
    let ?w = "take (leadingSpace s) s"
    have eq: "TrimLeft s = TrimLeft (drop (leadingSpace s) s)"
      using False by (subst TrimLeft.simps) simp
    have "s = ?w @ drop (leadingSpace s) s" by simp
    then have "s = (?w @ pre) @ TrimLeft s" using pre(1) eq by (metis append_assoc)
    moreover have "onlySpace (?w @ pre)"
      using leadingSpace_isSpace [OF False] pre(2) by (rule onlySpace_rune)
    ultimately show ?thesis by blast
  qed
qed

lemma TrimRight_decompose: "\<exists>suf. s = TrimRight s @ suf \<and> onlySpace suf"
proof (induction s rule: TrimRight.induct)
  case (1 s)
  show ?case
  proof (cases "trailingSpace s = 0")
    case True
    then have "TrimRight s = s" by (simp add: TrimRight.simps)
    then show ?thesis using onlySpace_Nil by auto
  next
    case False
    let ?n = "length s - trailingSpace s"
    from 1 [OF False] obtain suf where
      suf: "take ?n s = TrimRight (take ?n s) @ suf" "onlySpace suf"
      by blast
    have eq: "TrimRight s = TrimRight (take ?n s)"
      using False by (subst TrimRight.simps) simp
    have "s = take ?n s @ drop ?n s" by simp
    then have "s = TrimRight s @ (suf @ drop ?n s)" using suf(1) eq by (metis append_assoc)
    moreover have "onlySpace (suf @ drop ?n s)"
      using suf(2) onlySpace_single [OF trailingSpace_isSpace [OF False]]
      by (rule onlySpace_append)
    ultimately show ?thesis by blast
  qed
qed

lemma TrimLeft_leading: "leadingSpace (TrimLeft s) = 0"
proof (induction s rule: TrimLeft.induct)
  case (1 s)
  then show ?case by (subst TrimLeft.simps) (simp split: if_splits)
qed

lemma TrimRight_trailing: "trailingSpace (TrimRight s) = 0"
proof (induction s rule: TrimRight.induct)
  case (1 s)
  then show ?case by (subst TrimRight.simps) (simp split: if_splits)
qed

lemma leadingSpace_prefix: "leadingSpace (a @ b) = 0 \<Longrightarrow> leadingSpace a = 0"
  by (auto simp: leadingSpace_def split: if_splits)

lemma TrimSpace_decompose:
  "\<exists>pre suf. s = pre @ TrimSpace s @ suf \<and> onlySpace pre \<and> onlySpace suf"
proof -
  obtain pre where pre: "s = pre @ TrimLeft s" "onlySpace pre"
    using TrimLeft_decompose by blast
  obtain suf where suf: "TrimLeft s = TrimRight (TrimLeft s) @ suf" "onlySpace suf"
    using TrimRight_decompose by blast
  from pre(1) suf(1) have "s = pre @ TrimSpace s @ suf"
    by (simp add: TrimSpace_def)
  with pre(2) suf(2) show ?thesis by blast
qed

lemma TrimSpace_trimmed: "leadingSpace (TrimSpace s) = 0 \<and> trailingSpace (TrimSpace s) = 0"
proof -
  obtain suf where suf: "TrimLeft s = TrimRight (TrimLeft s) @ suf"
    using TrimRight_decompose by blast
  have "leadingSpace (TrimRight (TrimLeft s) @ suf) = 0"
    using TrimLeft_leading [of s] suf by simp
  then have "leadingSpace (TrimRight (TrimLeft s)) = 0"
    by (rule leadingSpace_prefix)
  then show ?thesis by (simp add: TrimSpace_def TrimRight_trailing)
qed

lemma set_TrimSpace: "set (TrimSpace s) \<subseteq> set s"
proof -
  obtain pre suf where "s = pre @ TrimSpace s @ suf" using TrimSpace_decompose by blast
  then have "set s = set pre \<union> set (TrimSpace s) \<union> set suf" by (metis set_append Un_assoc)
  then show ?thesis by blast
qed


subsection \<open>The header loop\<close>

lemma loop_step_colon:
  "CHR '':'' \<in> set h \<Longrightarrow>
   convertToMapAndSanitize_loop (h # rest) m =
     convertToMapAndSanitize_loop rest (if specKey h \<noteq> [] then m(specKey h \<mapsto> specVal h) else m)"
  by (simp add: SplitN_2 colon_not_control index_def specKey_def specVal_def Let_def
        ReplaceAllString_empty drop_Suc del: SplitN.simps)

lemma loop_step_no_colon:
  "CHR '':'' \<notin> set h \<Longrightarrow> convertToMapAndSanitize_loop (h # rest) m = Inl (IndexOutOfRange 1 1)"
  by (simp add: SplitN_2 colon_survives index_def Let_def del: SplitN.simps)

lemma loop_colons:
  "\<forall>h \<in> set raw. CHR '':'' \<in> set h \<Longrightarrow>
   convertToMapAndSanitize_loop raw m =
     Inr (m ++ map_of (rev (filter (\<lambda>(k, v). k \<noteq> []) (map (\<lambda>h. (specKey h, specVal h)) raw))))"
proof (induction raw arbitrary: m)
  case Nil
  then show ?case by simp
next
  case (Cons h rest)
  then have colon: "CHR '':'' \<in> set h" and rest: "\<forall>h \<in> set rest. CHR '':'' \<in> set h"
    by simp_all
  let ?k = "specKey h" and ?v = "specVal h"
  let ?M = "map_of (rev (filter (\<lambda>(k, v). k \<noteq> []) (map (\<lambda>h. (specKey h, specVal h)) rest)))"
  show ?case
  proof (cases "?k = []")
    case True
    with colon have "convertToMapAndSanitize_loop (h # rest) m = convertToMapAndSanitize_loop rest m"
      by (simp add: loop_step_colon del: convertToMapAndSanitize_loop.simps)
    also have "\<dots> = Inr (m ++ ?M)"
      by (rule Cons.IH [OF rest])
    finally show ?thesis using True by simp
  next
    case False
    with colon have "convertToMapAndSanitize_loop (h # rest) m =
        convertToMapAndSanitize_loop rest (m(?k \<mapsto> ?v))"
      by (simp add: loop_step_colon del: convertToMapAndSanitize_loop.simps)
    also have "\<dots> = Inr (m(?k \<mapsto> ?v) ++ ?M)"
      by (rule Cons.IH [OF rest])
    also have "m(?k \<mapsto> ?v) ++ ?M = m ++ ([?k \<mapsto> ?v] ++ ?M)"
      by (rule ext) (simp add: map_add_def split: option.splits)
    finally show ?thesis using False by (simp add: map_of_append)
  qed
qed

lemma loop_no_colon:
  "\<exists>h \<in> set raw. CHR '':'' \<notin> set h \<Longrightarrow>
   convertToMapAndSanitize_loop raw m = Inl (IndexOutOfRange 1 1)"
proof (induction raw arbitrary: m)
  case Nil
  then show ?case by simp
next
  case (Cons h rest)
  show ?case
  proof (cases "CHR '':'' \<in> set h")
    case True
    with Cons.prems have "\<exists>h \<in> set rest. CHR '':'' \<notin> set h" by auto
    from Cons.IH [OF this] True show ?thesis by (simp only: loop_step_colon)
  next
    case False
    then show ?thesis by (rule loop_step_no_colon)
  qed
qed


lemma normalizeHeaders_spec_snoc:
  "normalizeHeaders_spec (raw @ [x]) =
     (if specKey x \<noteq> [] then (normalizeHeaders_spec raw)(specKey x \<mapsto> specVal x)
      else normalizeHeaders_spec raw)"
  by (simp add: normalizeHeaders_spec_def)

lemma normalizeHeaders_spec_last_wins:
  "normalizeHeaders_spec raw k = Some v \<longleftrightarrow>
     k \<noteq> [] \<and> (\<exists>pre h post. raw = pre @ h # post \<and> specKey h = k \<and> specVal h = v \<and>
                  (\<forall>h' \<in> set post. specKey h' \<noteq> k))"
proof (induction raw rule: rev_induct)
  case Nil
  then show ?case by (simp add: normalizeHeaders_spec_def)
next
  case (snoc x raw)
  show ?case
  proof (cases "specKey x = k \<and> k \<noteq> []")
    case True
    have "normalizeHeaders_spec (raw @ [x]) k = Some (specVal x)"
      using True by (simp add: normalizeHeaders_spec_snoc)
    moreover have "(\<exists>pre h post. raw @ [x] = pre @ h # post \<and> specKey h = k \<and> specVal h = v \<and>
                  (\<forall>h' \<in> set post. specKey h' \<noteq> k)) \<longleftrightarrow> specVal x = v"
    proof
      assume "\<exists>pre h post. raw @ [x] = pre @ h # post \<and> specKey h = k \<and> specVal h = v \<and>
                  (\<forall>h' \<in> set post. specKey h' \<noteq> k)"
      then obtain pre h post where d: "raw @ [x] = pre @ h # post" "specVal h = v"
        "\<forall>h' \<in> set post. specKey h' \<noteq> k" by blast
      show "specVal x = v"
      proof (cases post rule: rev_cases)
        case Nil
        with d(1) have "h = x" by simp
        with d(2) show ?thesis by simp
      next
        case (snoc post' y)
        with d(1) have "raw @ [x] = (pre @ h # post') @ [y]" by simp
        then have "y = x" by (simp only: append1_eq_conv)
        with snoc d(3) True show ?thesis by simp
      qed
    next
      assume "specVal x = v"
      with True have "raw @ [x] = raw @ x # [] \<and> specKey x = k \<and> specVal x = v \<and>
                  (\<forall>h' \<in> set []. specKey h' \<noteq> k)" by simp
      then show "\<exists>pre h post. raw @ [x] = pre @ h # post \<and> specKey h = k \<and> specVal h = v \<and>
                  (\<forall>h' \<in> set post. specKey h' \<noteq> k)" by blast
    qed
    ultimately show ?thesis using True by simp
  next
    case False
    have keep: "normalizeHeaders_spec (raw @ [x]) k = normalizeHeaders_spec raw k"
      using False by (auto simp: normalizeHeaders_spec_snoc)
    have ex_eq: "(\<exists>pre h post. raw @ [x] = pre @ h # post \<and> specKey h = k \<and> specVal h = v \<and>
                  (\<forall>h' \<in> set post. specKey h' \<noteq> k)) \<longleftrightarrow>
          (\<exists>pre h post. raw = pre @ h # post \<and> specKey h = k \<and> specVal h = v \<and>
                  (\<forall>h' \<in> set post. specKey h' \<noteq> k))" if "k \<noteq> []"
    proof
      assume "\<exists>pre h post. raw @ [x] = pre @ h # post \<and> specKey h = k \<and> specVal h = v \<and>
                  (\<forall>h' \<in> set post. specKey h' \<noteq> k)"
      then obtain pre h post where d: "raw @ [x] = pre @ h # post" "specKey h = k" "specVal h = v"
        "\<forall>h' \<in> set post. specKey h' \<noteq> k" by blast
      show "\<exists>pre h post. raw = pre @ h # post \<and> specKey h = k \<and> specVal h = v \<and>
                  (\<forall>h' \<in> set post. specKey h' \<noteq> k)"
      proof (cases post rule: rev_cases)
        case Nil
        with d(1) have "h = x" by simp
        with d(2) False that show ?thesis by simp
      next
        case (snoc post' y)
        with d(1) have "raw @ [x] = (pre @ h # post') @ [y]" by simp
        then have "raw = pre @ h # post'" by (simp only: append1_eq_conv)
        moreover have "\<forall>h' \<in> set post'. specKey h' \<noteq> k" using d(4) snoc by simp
        ultimately show ?thesis using d(2,3) by blast
      qed
    next
      assume "\<exists>pre h post. raw = pre @ h # post \<and> specKey h = k \<and> specVal h = v \<and>
                  (\<forall>h' \<in> set post. specKey h' \<noteq> k)"
      then obtain pre h post where d: "raw = pre @ h # post" "specKey h = k" "specVal h = v"
        "\<forall>h' \<in> set post. specKey h' \<noteq> k" by blast
      have "raw @ [x] = pre @ h # (post @ [x])" using d(1) by simp
      moreover have "\<forall>h' \<in> set (post @ [x]). specKey h' \<noteq> k" using d(4) False that by auto
      ultimately show "\<exists>pre h post. raw @ [x] = pre @ h # post \<and> specKey h = k \<and> specVal h = v \<and>
                  (\<forall>h' \<in> set post. specKey h' \<noteq> k)" using d(2,3) by blast
    qed
    show ?thesis
    proof (cases "k = []")
      case True
      then show ?thesis using keep snoc.IH by simp
    next
      case nonempty: False
      show ?thesis unfolding keep snoc.IH ex_eq [OF nonempty] ..
    qed
  qed
qed

lemma specKey_clean:
  "(\<forall>c \<in> set (specKey h). \<not> isControl c \<and> c \<noteq> CHR '':'') \<and>
   leadingSpace (specKey h) = 0 \<and> trailingSpace (specKey h) = 0"
proof -
  let ?part = "takeWhile (\<lambda>c. c \<noteq> CHR '':'') (filter (\<lambda>c. \<not> isControl c) h)"
  have sub: "set (specKey h) \<subseteq> set ?part"
    unfolding specKey_def by (rule set_TrimSpace)
  have "\<not> isControl c \<and> c \<noteq> CHR '':''" if "c \<in> set ?part" for c
  proof -
    from set_takeWhileD [OF that]
    have "c \<in> set (filter (\<lambda>c. \<not> isControl c) h)" and "c \<noteq> CHR '':''"
      by blast+
    then show ?thesis by simp
  qed
  with sub have "\<forall>c \<in> set (specKey h). \<not> isControl c \<and> c \<noteq> CHR '':''"
    by blast
  moreover have "leadingSpace (specKey h) = 0 \<and> trailingSpace (specKey h) = 0"
    unfolding specKey_def by (rule TrimSpace_trimmed)
  ultimately show ?thesis by (rule conjI)
qed

lemma specVal_clean:
  "(\<forall>c \<in> set (specVal h). \<not> isControl c) \<and>
   leadingSpace (specVal h) = 0 \<and> trailingSpace (specVal h) = 0"
proof -
  let ?part = "drop 1 (dropWhile (\<lambda>c. c \<noteq> CHR '':'') (filter (\<lambda>c. \<not> isControl c) h))"
  have sub: "set (specVal h) \<subseteq> set ?part"
    unfolding specVal_def by (rule set_TrimSpace)
  have "\<not> isControl c" if "c \<in> set ?part" for c
  proof -
    from that have "c \<in> set (dropWhile (\<lambda>c. c \<noteq> CHR '':'') (filter (\<lambda>c. \<not> isControl c) h))"
      by (rule in_set_dropD)
    then have "c \<in> set (filter (\<lambda>c. \<not> isControl c) h)"
      by (rule set_dropWhileD)
    then show ?thesis by simp
  qed
  with sub have "\<forall>c \<in> set (specVal h). \<not> isControl c"
    by blast
  moreover have "leadingSpace (specVal h) = 0 \<and> trailingSpace (specVal h) = 0"
    unfolding specVal_def by (rule TrimSpace_trimmed)
  ultimately show ?thesis by (rule conjI)
qed

lemma normalizeHeaders_spec_example:
  "normalizeHeaders_spec [''X-Foo: 1'', ''X-Foo: 2''] = [''X-Foo'' \<mapsto> ''2'']"
proof -
  have "specKey ''X-Foo: 1'' = ''X-Foo''" "specKey ''X-Foo: 2'' = ''X-Foo''"
    "specVal ''X-Foo: 1'' = ''1''" "specVal ''X-Foo: 2'' = ''2''"
    by code_simp+
  then show ?thesis by (simp add: normalizeHeaders_spec_def)
qed

lemma mapContains_convertToMap_loop:
  "mapContains (convertToMap_loop evs m) x \<longleftrightarrow> x \<in> set evs \<or> mapContains m x"
  by (induction evs arbitrary: m) (auto simp: mapContains_def)

lemma mapContains_convertToMap: "mapContains (convertToMap evs) x \<longleftrightarrow> x \<in> set evs"
proof -
  have "\<not> mapContains Map.empty x" by (simp add: mapContains_def)
  then show ?thesis by (simp add: convertToMap_def mapContains_convertToMap_loop)
qed

lemma NewEndpointClient_fields:
  assumes "NewEndpointClient url hdrs cm evs d cfg0 = (cfg', Inr c)"
  shows "URL c = url" and "connect c = cm" and "events c = convertToMap evs"
    and "isEventDestination c = d" and "cfg c = cfg'"
    and "convertToMapAndSanitize hdrs = Inr (headers c)"
  using assms by (auto simp: NewEndpointClient_def Let_def split: sum.splits)

section \<open>Properties of the send operations\<close>

lemma fold_Header_Add:
  "fold (\<lambda>(k, v) h. Header_Add h k v) kvs h K =
     (if valuesFor kvs K = [] then h K
      else Some ((case h K of None \<Rightarrow> [] | Some vs \<Rightarrow> vs) @ valuesFor kvs K))"
proof (induction kvs arbitrary: h)
  case Nil
  show ?case by (simp add: valuesFor_def)
next
  case (Cons kv kvs)
  obtain k v where kv: "kv = (k, v)" by (cases kv)
  have "fold (\<lambda>(k, v) h. Header_Add h k v) (kv # kvs) h K =
        fold (\<lambda>(k, v) h. Header_Add h k v) kvs (Header_Add h k v) K"
    unfolding kv by simp
  also have "\<dots> = (if valuesFor kvs K = [] then Header_Add h k v K
      else Some ((case Header_Add h k v K of None \<Rightarrow> [] | Some vs \<Rightarrow> vs) @ valuesFor kvs K))"
    by (rule Cons.IH)
  also have "\<dots> = (if valuesFor (kv # kvs) K = [] then h K
      else Some ((case h K of None \<Rightarrow> [] | Some vs \<Rightarrow> vs) @ valuesFor (kv # kvs) K))"
    by (simp add: Header_Add_def Let_def valuesFor_def kv)
  finally show ?case .
qed

lemma fold_add_Header:
  "Header (fold (\<lambda>(k, v) req. req\<lparr>Header := Header_Add (Header req) k v\<rparr>) kvs req) =
     fold (\<lambda>(k, v) h. Header_Add h k v) kvs (Header req)"
  by (induction kvs arbitrary: req) (simp_all add: split_def)

lemma fold_add_frame:
  "Host (fold (\<lambda>(k, v) req. req\<lparr>Header := Header_Add (Header req) k v\<rparr>) kvs req) = Host req \<and>
   Method (fold (\<lambda>(k, v) req. req\<lparr>Header := Header_Add (Header req) k v\<rparr>) kvs req) = Method req \<and>
   RequestURL (fold (\<lambda>(k, v) req. req\<lparr>Header := Header_Add (Header req) k v\<rparr>) kvs req) = RequestURL req \<and>
   Body (fold (\<lambda>(k, v) req. req\<lparr>Header := Header_Add (Header req) k v\<rparr>) kvs req) = Body req"
  by (induction kvs arbitrary: req) (simp_all add: split_def)

lemma fold_overlay_Header:
  "Header (fold (\<lambda>(k, v) req. if ToLower k = ''host'' then req\<lparr>Host := v\<rparr>
                                else req\<lparr>Header := Header_Add (Header req) k v\<rparr>) kvs req) =
     fold (\<lambda>(k, v) h. Header_Add h k v) (plainHeaders kvs) (Header req)"
  by (induction kvs arbitrary: req) (simp_all add: split_def plainHeaders_def)

lemma fold_overlay_Host:
  "Host (fold (\<lambda>(k, v) req. if ToLower k = ''host'' then req\<lparr>Host := v\<rparr>
                                else req\<lparr>Header := Header_Add (Header req) k v\<rparr>) kvs req) =
     (if hostHeaders kvs = [] then Host req else snd (last (hostHeaders kvs)))"
  by (induction kvs arbitrary: req) (simp_all add: split_def hostHeaders_def)

lemma fold_overlay_frame:
  "Method (fold (\<lambda>(k, v) req. if ToLower k = ''host'' then req\<lparr>Host := v\<rparr>
                                else req\<lparr>Header := Header_Add (Header req) k v\<rparr>) kvs req) = Method req \<and>
   RequestURL (fold (\<lambda>(k, v) req. if ToLower k = ''host'' then req\<lparr>Host := v\<rparr>
                                else req\<lparr>Header := Header_Add (Header req) k v\<rparr>) kvs req) = RequestURL req \<and>
   Body (fold (\<lambda>(k, v) req. if ToLower k = ''host'' then req\<lparr>Host := v\<rparr>
                                else req\<lparr>Header := Header_Add (Header req) k v\<rparr>) kvs req) = Body req"
  by (induction kvs arbitrary: req) (simp_all add: split_def)


lemma withHeaders_Header:
  "Header (withHeaders eo ho req0) K =
     (if valuesFor eo K @ valuesFor (plainHeaders ho) K = [] then Header req0 K
      else Some ((case Header req0 K of None \<Rightarrow> [] | Some vs \<Rightarrow> vs)
                 @ valuesFor eo K @ valuesFor (plainHeaders ho) K))"
  by (simp add: withHeaders_def fold_overlay_Header fold_add_Header fold_Header_Add)

lemma withHeaders_Host:
  "Host (withHeaders eo ho req0) =
     (if hostHeaders ho = [] then Host req0 else snd (last (hostHeaders ho)))"
  by (simp add: withHeaders_def fold_overlay_Host fold_add_frame)

lemma withHeaders_frame:
  "Method (withHeaders eo ho req0) = Method req0 \<and>
   RequestURL (withHeaders eo ho req0) = RequestURL req0 \<and>
   Body (withHeaders eo ho req0) = Body req0"
  by (simp add: withHeaders_def fold_overlay_frame fold_add_frame)

lemma Post_unfold:
  assumes "Log (cfg c) = Some lg" and "HTTPClient (cfg c) = Some hc"
    and "urlParse w (URL c) = Inr host"
  shows "Post w c e eo ho =
     (let req = withHeaders eo ho
                  \<lparr>Method = ''POST'', RequestURL = URL c, Header = Map.empty,
                   Body = requestBody e, Host = host\<rparr>;
          t0 = [LogDebug lg [(''prefix'', ''proxy.EndpointClient.Post'')]
                  ''Forwarding event to local endpoint'']
      in case Do w hc req of
           Inl err \<Rightarrow>
             (case OutCh (cfg c) of
                None \<Rightarrow> (BlockedForever (SendOnNilChannel (ErrorElement (FailedToPostError err))),
                          t0 @ [HTTPDo hc req])
              | Some ch \<Rightarrow> (Returned (Some err),
                             t0 @ [HTTPDo hc req, ChanSend ch (ErrorElement (FailedToPostError err))]))
         | Inr resp \<Rightarrow>
             (case ResponseHandler (cfg c) of
                None \<Rightarrow> (Panicked NilPointerDereference, t0 @ [HTTPDo hc req, BodyClose resp])
              | Some h \<Rightarrow> (Returned None,
                            t0 @ [HTTPDo hc req, ProcessResponse e (URL c) resp]
                               @ map HandlerAction (h e (URL c) resp) @ [BodyClose resp])))"
  using assms by (simp add: Post_def NewRequest_def withHeaders_def Let_def)

lemma PostV2_unfold:
  assumes "urlParse w (URL c) = Inr host"
  shows "PostV2 w c e eo ho =
     (let req = withHeaders eo ho
                  \<lparr>Method = ''POST'', RequestURL = URL c, Header = Map.empty,
                   Body = requestBody e, Host = host\<rparr>
      in case Do w DefaultClient req of
           Inl err \<Rightarrow>
             (case OutCh (cfg c) of
                None \<Rightarrow> (BlockedForever (SendOnNilChannel (ErrorElement (FailedToPostError err))),
                          [HTTPDo DefaultClient req])
              | Some ch \<Rightarrow> (Returned (Some err),
                             [HTTPDo DefaultClient req,
                              ChanSend ch (ErrorElement (FailedToPostError err))]))
         | Inr resp \<Rightarrow>
             (case ResponseHandler (cfg c) of
                None \<Rightarrow> (Panicked NilPointerDereference, [HTTPDo DefaultClient req, BodyClose resp])
              | Some h \<Rightarrow> (Returned None,
                            [HTTPDo DefaultClient req, ProcessResponse e (URL c) resp]
                               @ map HandlerAction (h e (URL c) resp) @ [BodyClose resp])))"
  using assms by (simp add: PostV2_def NewRequest_def withHeaders_def Let_def)

lemma Post_bad_url:
  assumes "Log (cfg c) = Some lg" and "urlParse w (URL c) = Inl err"
  shows "Post w c e eo ho =
     (Returned (Some err),
      [LogDebug lg [(''prefix'', ''proxy.EndpointClient.Post'')]
         ''Forwarding event to local endpoint''])"
  using assms by (simp add: Post_def NewRequest_def)

lemma PostV2_bad_url:
  assumes "urlParse w (URL c) = Inl err"
  shows "PostV2 w c e eo ho = (Returned (Some err), [])"
  using assms by (simp add: PostV2_def NewRequest_def)

lemma NewEndpointClient_cfg:
  assumes "NewEndpointClient url hdrs cm evs d cfg0 = (cfg', r)"
  shows "Log cfg' \<noteq> None" and "HTTPClient cfg' \<noteq> None" and "ResponseHandler cfg' \<noteq> None"
    and "OutCh cfg' = (case cfg0 of None \<Rightarrow> None | Some given \<Rightarrow> OutCh given)"
  using assms by (auto simp: NewEndpointClient_def Let_def split: option.splits if_splits)

lemma observe_simps:
  "sentRequests [] = []" "sentRequests (x # xs) = (case x of HTTPDo hc req \<Rightarrow> [req] | _ \<Rightarrow> []) @ sentRequests xs"
  "sentRequests (xs @ ys) = sentRequests xs @ sentRequests ys"
  "usedClients [] = []" "usedClients (x # xs) = (case x of HTTPDo hc req \<Rightarrow> [hc] | _ \<Rightarrow> []) @ usedClients xs"
  "usedClients (xs @ ys) = usedClients xs @ usedClients ys"
  "chanSends [] = []" "chanSends (x # xs) = (case x of ChanSend ch el \<Rightarrow> [(ch, el)] | _ \<Rightarrow> []) @ chanSends xs"
  "chanSends (xs @ ys) = chanSends xs @ chanSends ys"
  "handlerCalls [] = []"
  "handlerCalls (x # xs) = (case x of ProcessResponse ctx url resp \<Rightarrow> [(ctx, url, resp)] | _ \<Rightarrow> []) @ handlerCalls xs"
  "handlerCalls (xs @ ys) = handlerCalls xs @ handlerCalls ys"
  "bodyCloses [] = []" "bodyCloses (x # xs) = (case x of BodyClose resp \<Rightarrow> [resp] | _ \<Rightarrow> []) @ bodyCloses xs"
  "bodyCloses (xs @ ys) = bodyCloses xs @ bodyCloses ys"
  "logLines [] = []" "logLines (x # xs) = (case x of LogDebug lg flds msg \<Rightarrow> [(lg, flds, msg)] | _ \<Rightarrow> []) @ logLines xs"
  "logLines (xs @ ys) = logLines xs @ logLines ys"
  by (simp_all add: sentRequests_def usedClients_def chanSends_def handlerCalls_def bodyCloses_def logLines_def)

lemma observe_actions:
  "sentRequests (map HandlerAction as) = []" "usedClients (map HandlerAction as) = []"
  "chanSends (map HandlerAction as) = []" "handlerCalls (map HandlerAction as) = []"
  "bodyCloses (map HandlerAction as) = []" "logLines (map HandlerAction as) = []"
  by (induction as) (simp_all add: observe_simps)

lemma convertToMapAndSanitize_Nil: "convertToMapAndSanitize [] = Inr Map.empty"
  by (simp add: convertToMapAndSanitize_def)

lemma viaClient_simps:
  "viaClient hc [] = []"
  "viaClient hc (x # xs) = (case x of HTTPDo hc' req \<Rightarrow> HTTPDo hc req | _ \<Rightarrow> x) # viaClient hc xs"
  "viaClient hc (xs @ ys) = viaClient hc xs @ viaClient hc ys"
  "viaClient hc (map HandlerAction as) = map HandlerAction as"
  by (simp_all add: viaClient_def)

section \<open>The claims\<close>

subsection \<open>Header normalization\<close>

text \<open>
  C1. The claim: for every raw header sequence containing an entry with no colon, header
  normalization fails with an explicit validation error and never commits an
  out-of-range indexing fault. The code has no validation: for every such sequence the
  call ends in the fault of reading index 1 of a one-element slice, the split of the first
  entry without a colon.
\<close>

theorem convertToMapAndSanitize_missing_colon:
  assumes "\<exists>h \<in> set raw. CHR '':'' \<notin> set h"
  shows "convertToMapAndSanitize raw = Inl (IndexOutOfRange 1 1)"
  using assms unfolding convertToMapAndSanitize_def by (rule loop_no_colon)

theorem convertToMapAndSanitize_missing_colon_witness:
  "(\<exists>h \<in> set [''Bad-Header'']. CHR '':'' \<notin> set h) \<and>
   convertToMapAndSanitize [''Bad-Header''] = Inl (IndexOutOfRange 1 1)"
proof -
  have h: "\<exists>h \<in> set [''Bad-Header'']. CHR '':'' \<notin> set h" by simp
  from h convertToMapAndSanitize_missing_colon [OF h] show ?thesis by (rule conjI)
qed

text \<open>
  C5. For every raw header sequence whose entries each contain a colon, the code returns
  the map that the specification describes: control bytes 0x00..0x1F are removed from
  each entry, the entry is split on its first colon, key and value are trimmed, entries
  with an empty key are dropped and the last entry of a key wins. Every stored key and
  value is free of control bytes and neither starts nor ends with a space rune, and
  trimming removes space runes only.
\<close>

theorem convertToMapAndSanitize_normalizes:
  assumes "\<forall>h \<in> set raw. CHR '':'' \<in> set h"
  shows "convertToMapAndSanitize raw = Inr (normalizeHeaders_spec raw) \<and>
    (\<forall>k v. normalizeHeaders_spec raw k = Some v \<longleftrightarrow>
       k \<noteq> [] \<and> (\<exists>pre h post. raw = pre @ h # post \<and> specKey h = k \<and> specVal h = v \<and>
                    (\<forall>h' \<in> set post. specKey h' \<noteq> k))) \<and>
    (\<forall>k v. normalizeHeaders_spec raw k = Some v \<longrightarrow>
       (\<forall>c \<in> set k \<union> set v. \<not> isControl c) \<and>
       leadingSpace k = 0 \<and> trailingSpace k = 0 \<and> leadingSpace v = 0 \<and> trailingSpace v = 0) \<and>
    (\<forall>s. \<exists>pre suf. s = pre @ TrimSpace s @ suf \<and> onlySpace pre \<and> onlySpace suf)"
proof (intro conjI allI impI)
  show "convertToMapAndSanitize raw = Inr (normalizeHeaders_spec raw)"
    using loop_colons [OF assms, of Map.empty]
    by (simp add: convertToMapAndSanitize_def normalizeHeaders_spec_def)
next
  fix k v
  show "normalizeHeaders_spec raw k = Some v \<longleftrightarrow>
       k \<noteq> [] \<and> (\<exists>pre h post. raw = pre @ h # post \<and> specKey h = k \<and> specVal h = v \<and>
                    (\<forall>h' \<in> set post. specKey h' \<noteq> k))"
    by (rule normalizeHeaders_spec_last_wins)
next
  fix k v
  assume "normalizeHeaders_spec raw k = Some v"
  then obtain h where h: "specKey h = k" "specVal h = v"
    unfolding normalizeHeaders_spec_last_wins by blast
  from h specKey_clean [of h] specVal_clean [of h]
  show "\<forall>c \<in> set k \<union> set v. \<not> isControl c" by auto
  from h specKey_clean [of h] show "leadingSpace k = 0" "trailingSpace k = 0" by auto
  from h specVal_clean [of h] show "leadingSpace v = 0" "trailingSpace v = 0" by auto
next
  fix s
  show "\<exists>pre suf. s = pre @ TrimSpace s @ suf \<and> onlySpace pre \<and> onlySpace suf"
    by (rule TrimSpace_decompose)
qed

theorem convertToMapAndSanitize_normalizes_witness:
  "CHR '':'' \<in> set ''X-Foo: 1'' \<and> CHR '':'' \<in> set ''X-Foo: 2'' \<and>
   convertToMapAndSanitize [''X-Foo: 1'', ''X-Foo: 2''] = Inr [''X-Foo'' \<mapsto> ''2'']"
proof -
  have h: "\<forall>h \<in> set [''X-Foo: 1'', ''X-Foo: 2'']. CHR '':'' \<in> set h" by simp
  from convertToMapAndSanitize_normalizes [OF h] normalizeHeaders_spec_example
  show ?thesis by simp
qed

text \<open>The specification's example of a control byte inside a value.\<close>

lemma control_example:
  "convertToMapAndSanitize [''X-Foo: a'' @ [CHR 0x01] @ ''b''] = Inr [''X-Foo'' \<mapsto> ''ab'']"
proof -
  have "specKey (''X-Foo: a'' @ [CHR 0x01] @ ''b'') = ''X-Foo''"
    "specVal (''X-Foo: a'' @ [CHR 0x01] @ ''b'') = ''ab''"
    by code_simp+
  moreover have "CHR '':'' \<in> set (''X-Foo: a'' @ [CHR 0x01] @ ''b'')" by simp
  ultimately show ?thesis
    by (simp add: convertToMapAndSanitize_def loop_step_colon del: convertToMapAndSanitize_loop.simps(2))
qed

subsection \<open>Routing predicates\<close>

text \<open>
  C6. \<^verbatim>\<open>SupportsEventType(requestMode, eventType)\<close> is true iff \<^verbatim>\<open>requestMode\<close> equals the
  client's connect mode and the client's event set contains \<^verbatim>\<open>"*"\<close> or \<^verbatim>\<open>eventType\<close>;
  for a client made by \<^verbatim>\<open>NewEndpointClient\<close> the event set is the set of the event types
  it was given. The predicate is a function of the client and its two arguments and has
  no effect.
\<close>

theorem SupportsEventType_iff:
  "(SupportsEventType c requestMode eventType \<longleftrightarrow>
      requestMode = connect c \<and>
      (mapContains (events c) ''*'' \<or> mapContains (events c) eventType)) \<and>
   (NewEndpointClient url hdrs cm evs d cfg0 = (cfg', Inr c) \<longrightarrow>
      (SupportsEventType c requestMode eventType \<longleftrightarrow>
         requestMode = cm \<and> (''*'' \<in> set evs \<or> eventType \<in> set evs)))"
proof -
  have general: "SupportsEventType c requestMode eventType \<longleftrightarrow>
      requestMode = connect c \<and>
      (mapContains (events c) ''*'' \<or> mapContains (events c) eventType)"
    by (simp add: SupportsEventType_def)
  show ?thesis
  proof (intro conjI impI)
    show "SupportsEventType c requestMode eventType \<longleftrightarrow>
      requestMode = connect c \<and>
      (mapContains (events c) ''*'' \<or> mapContains (events c) eventType)"
      by (rule general)
  next
    assume "NewEndpointClient url hdrs cm evs d cfg0 = (cfg', Inr c)"
    from NewEndpointClient_fields(2,3) [OF this] general
    show "SupportsEventType c requestMode eventType \<longleftrightarrow>
         requestMode = cm \<and> (''*'' \<in> set evs \<or> eventType \<in> set evs)"
      by (simp add: mapContains_convertToMap)
  qed
qed

theorem SupportsEventType_iff_witness:
  "\<exists>cfg' c. NewEndpointClient ''http://localhost:3000'' [] False [''charge.succeeded''] False None
       = (cfg', Inr c) \<and>
     SupportsEventType c False ''charge.succeeded'' \<and>
     \<not> SupportsEventType c True ''charge.succeeded'' \<and>
     \<not> SupportsEventType c False ''charge.failed''"
proof -
  obtain cfg' c where
    new: "NewEndpointClient ''http://localhost:3000'' [] False [''charge.succeeded''] False None
       = (cfg', Inr c)"
    by (simp add: NewEndpointClient_def convertToMapAndSanitize_def Let_def)
  from SupportsEventType_iff [of c _ _ "''http://localhost:3000''" "[]" False
      "[''charge.succeeded'']" False None cfg'] new
  have "\<And>m e. SupportsEventType c m e \<longleftrightarrow> m = False \<and> (''*'' \<in> set [''charge.succeeded''] \<or> e \<in> set [''charge.succeeded''])"
    by blast
  then have "SupportsEventType c False ''charge.succeeded'' \<and>
     \<not> SupportsEventType c True ''charge.succeeded'' \<and>
     \<not> SupportsEventType c False ''charge.failed''" by simp
  with new show ?thesis by blast
qed

text \<open>
  C7. \<^verbatim>\<open>SupportsContext(context)\<close> is true iff the client is in connect mode and the
  context is not empty, or the client is not in connect mode and the context is empty.
\<close>

theorem SupportsContext_iff:
  "SupportsContext c context \<longleftrightarrow> (connect c \<and> context \<noteq> []) \<or> (\<not> connect c \<and> context = [])"
  by (simp add: SupportsContext_def)

theorem SupportsContext_iff_witness:
  "SupportsContext \<lparr>URL = ''http://localhost:3000'', headers = Map.empty, connect = True,
      events = Map.empty,
      cfg = \<lparr>HTTPClient = None, Log = None, ResponseHandler = None, OutCh = None\<rparr>,
      isEventDestination = False\<rparr> ''acct_123'' \<and>
   \<not> SupportsContext \<lparr>URL = ''http://localhost:3000'', headers = Map.empty, connect = False,
      events = Map.empty,
      cfg = \<lparr>HTTPClient = None, Log = None, ResponseHandler = None, OutCh = None\<rparr>,
      isEventDestination = False\<rparr> ''acct_123''"
  using SupportsContext_iff [of "\<lparr>URL = ''http://localhost:3000'', headers = Map.empty,
      connect = True, events = Map.empty,
      cfg = \<lparr>HTTPClient = None, Log = None, ResponseHandler = None, OutCh = None\<rparr>,
      isEventDestination = False\<rparr>" "''acct_123''"]
    SupportsContext_iff [of "\<lparr>URL = ''http://localhost:3000'', headers = Map.empty,
      connect = False, events = Map.empty,
      cfg = \<lparr>HTTPClient = None, Log = None, ResponseHandler = None, OutCh = None\<rparr>,
      isEventDestination = False\<rparr>" "''acct_123''"]
  by simp

subsection \<open>The send operations\<close>

text \<open>
  C3. The claim: for every call to \<^verbatim>\<open>Post\<close>, it returns an error iff request construction
  or the transport call fails, with exactly one error record on the output channel iff the
  failure is a transport failure, and on success it returns \<^verbatim>\<open>nil\<close> after invoking the
  handler once. With a \<^verbatim>\<open>nil\<close> output channel, which \<^verbatim>\<open>NewEndpointClient\<close> leaves in
  place, a transport failure does not return: the send blocks and no record is pushed.
  As amended: for every client made by \<^verbatim>\<open>NewEndpointClient\<close> whose output channel is not
  \<^verbatim>\<open>nil\<close>, a construction failure is returned with no request sent, no record and no
  handler call; a transport failure is returned after exactly one record wrapping it is
  sent on the channel, with no handler call; on success \<^verbatim>\<open>Post\<close> returns \<^verbatim>\<open>nil\<close> after
  one handler call with the event context, the URL and the response, and the body is
  closed last.
\<close>

theorem Post_results:
  assumes new: "NewEndpointClient url hdrs cm evs d cfg0 = (cfg', Inr c)"
    and ch: "OutCh (cfg c) = Some ch"
  shows
    "(\<forall>err. urlParse w (URL c) = Inl err \<longrightarrow>
        fst (Post w c e eo ho) = Returned (Some err) \<and>
        sentRequests (snd (Post w c e eo ho)) = [] \<and>
        chanSends (snd (Post w c e eo ho)) = [] \<and>
        handlerCalls (snd (Post w c e eo ho)) = []) \<and>
     (\<forall>host. urlParse w (URL c) = Inr host \<longrightarrow>
        (\<exists>hc req. HTTPClient (cfg c) = Some hc \<and>
           sentRequests (snd (Post w c e eo ho)) = [req] \<and>
           usedClients (snd (Post w c e eo ho)) = [hc] \<and>
           (\<forall>err. Do w hc req = Inl err \<longrightarrow>
              fst (Post w c e eo ho) = Returned (Some err) \<and>
              chanSends (snd (Post w c e eo ho)) = [(ch, ErrorElement (FailedToPostError err))] \<and>
              handlerCalls (snd (Post w c e eo ho)) = []) \<and>
           (\<forall>resp. Do w hc req = Inr resp \<longrightarrow>
              fst (Post w c e eo ho) = Returned None \<and>
              chanSends (snd (Post w c e eo ho)) = [] \<and>
              handlerCalls (snd (Post w c e eo ho)) = [(e, URL c, resp)] \<and>
              bodyCloses (snd (Post w c e eo ho)) = [resp] \<and>
              last (snd (Post w c e eo ho)) = BodyClose resp)))"
proof -
  from NewEndpointClient_fields(5) [OF new] NewEndpointClient_cfg(1-3) [OF new]
  obtain lg hc h where lg: "Log (cfg c) = Some lg" and hc: "HTTPClient (cfg c) = Some hc"
    and h: "ResponseHandler (cfg c) = Some h"
    by auto
  show ?thesis
  proof (intro conjI allI impI)
    fix err
    assume bad: "urlParse w (URL c) = Inl err"
    show "fst (Post w c e eo ho) = Returned (Some err)"
      "sentRequests (snd (Post w c e eo ho)) = []"
      "chanSends (snd (Post w c e eo ho)) = []"
      "handlerCalls (snd (Post w c e eo ho)) = []"
      by (simp_all add: Post_bad_url [OF lg bad] observe_simps)
  next
    fix host
    assume ok: "urlParse w (URL c) = Inr host"
    let ?req = "withHeaders eo ho
                  \<lparr>Method = ''POST'', RequestURL = URL c, Header = Map.empty,
                   Body = requestBody e, Host = host\<rparr>"
    note unfold = Post_unfold [OF lg hc ok, of e eo ho]
    have sent: "sentRequests (snd (Post w c e eo ho)) = [?req]"
      and used: "usedClients (snd (Post w c e eo ho)) = [hc]"
      by (simp_all add: unfold Let_def ch h observe_simps observe_actions split: sum.splits)
    have fails: "fst (Post w c e eo ho) = Returned (Some err) \<and>
              chanSends (snd (Post w c e eo ho)) = [(ch, ErrorElement (FailedToPostError err))] \<and>
              handlerCalls (snd (Post w c e eo ho)) = []"
      if "Do w hc ?req = Inl err" for err
      using that by (simp add: unfold Let_def ch observe_simps)
    have succeeds: "fst (Post w c e eo ho) = Returned None \<and>
              chanSends (snd (Post w c e eo ho)) = [] \<and>
              handlerCalls (snd (Post w c e eo ho)) = [(e, URL c, resp)] \<and>
              bodyCloses (snd (Post w c e eo ho)) = [resp] \<and>
              last (snd (Post w c e eo ho)) = BodyClose resp"
      if "Do w hc ?req = Inr resp" for resp
      using that by (simp add: unfold Let_def h observe_simps observe_actions)
    from hc sent used fails succeeds
    show "\<exists>hc req. HTTPClient (cfg c) = Some hc \<and>
           sentRequests (snd (Post w c e eo ho)) = [req] \<and>
           usedClients (snd (Post w c e eo ho)) = [hc] \<and>
           (\<forall>err. Do w hc req = Inl err \<longrightarrow>
              fst (Post w c e eo ho) = Returned (Some err) \<and>
              chanSends (snd (Post w c e eo ho)) = [(ch, ErrorElement (FailedToPostError err))] \<and>
              handlerCalls (snd (Post w c e eo ho)) = []) \<and>
           (\<forall>resp. Do w hc req = Inr resp \<longrightarrow>
              fst (Post w c e eo ho) = Returned None \<and>
              chanSends (snd (Post w c e eo ho)) = [] \<and>
              handlerCalls (snd (Post w c e eo ho)) = [(e, URL c, resp)] \<and>
              bodyCloses (snd (Post w c e eo ho)) = [resp] \<and>
              last (snd (Post w c e eo ho)) = BodyClose resp)"
      by blast
  qed
qed


theorem Post_results_witness:
  "case snd (NewEndpointClient ''http://localhost:3000'' [] False [''*''] False
        (Some \<lparr>HTTPClient = None, Log = None, ResponseHandler = None, OutCh = Some 7\<rparr>)) of
     Inl p \<Rightarrow> False
   | Inr c \<Rightarrow>
       OutCh (cfg c) = Some 7 \<and>
       fst (Post exWorldDown c exEvent [(''X-Foo'', ''event'')] []) =
         Returned (Some (Error ''connection refused'')) \<and>
       chanSends (snd (Post exWorldDown c exEvent [(''X-Foo'', ''event'')] [])) =
         [(7, ErrorElement (FailedToPostError (Error ''connection refused'')))] \<and>
       fst (Post exWorld c exEvent [(''X-Foo'', ''event'')] []) = Returned None \<and>
       handlerCalls (snd (Post exWorld c exEvent [(''X-Foo'', ''event'')] [])) =
         [(exEvent, ''http://localhost:3000'', \<lparr>StatusCode = 200, ResponseBody = ''ok''\<rparr>)]"
proof -
  obtain cfg' c where
    new: "NewEndpointClient ''http://localhost:3000'' [] False [''*''] False
        (Some \<lparr>HTTPClient = None, Log = None, ResponseHandler = None, OutCh = Some 7\<rparr>)
      = (cfg', Inr c)"
    by (simp add: NewEndpointClient_def convertToMapAndSanitize_Nil Let_def)
  have ch: "OutCh (cfg c) = Some 7"
    using NewEndpointClient_fields(5) [OF new] NewEndpointClient_cfg(4) [OF new] by simp
  have url: "URL c = ''http://localhost:3000''"
    by (rule NewEndpointClient_fields(1) [OF new])
  have down: "urlParse exWorldDown (URL c) = Inr ''localhost:3000''"
    "\<And>hc req. Do exWorldDown hc req = Inl (Error ''connection refused'')"
    by (simp_all add: exWorldDown_def url)
  have up: "urlParse exWorld (URL c) = Inr ''localhost:3000''"
    "\<And>hc req. Do exWorld hc req = Inr \<lparr>StatusCode = 200, ResponseBody = ''ok''\<rparr>"
    by (simp_all add: exWorld_def url)
  from Post_results [OF new ch, of exWorldDown exEvent "[(''X-Foo'', ''event'')]" "[]"] down
  have 1: "fst (Post exWorldDown c exEvent [(''X-Foo'', ''event'')] []) =
         Returned (Some (Error ''connection refused'')) \<and>
       chanSends (snd (Post exWorldDown c exEvent [(''X-Foo'', ''event'')] [])) =
         [(7, ErrorElement (FailedToPostError (Error ''connection refused'')))]"
    by blast
  from Post_results [OF new ch, of exWorld exEvent "[(''X-Foo'', ''event'')]" "[]"] up
  have 2: "fst (Post exWorld c exEvent [(''X-Foo'', ''event'')] []) = Returned None \<and>
       handlerCalls (snd (Post exWorld c exEvent [(''X-Foo'', ''event'')] [])) =
         [(exEvent, URL c, \<lparr>StatusCode = 200, ResponseBody = ''ok''\<rparr>)]"
    by blast
  from new ch 1 2 url show ?thesis by simp
qed

theorem Post_nil_channel_counterexample:
  "case snd (NewEndpointClient ''http://localhost:3000'' [] False [''*''] False None) of
     Inl p \<Rightarrow> False
   | Inr c \<Rightarrow>
       fst (Post exWorldDown c exEvent [(''X-Foo'', ''event'')] []) =
         BlockedForever (SendOnNilChannel
           (ErrorElement (FailedToPostError (Error ''connection refused'')))) \<and>
       chanSends (snd (Post exWorldDown c exEvent [(''X-Foo'', ''event'')] [])) = []"
proof -
  obtain cfg' c where
    new: "NewEndpointClient ''http://localhost:3000'' [] False [''*''] False None = (cfg', Inr c)"
    by (simp add: NewEndpointClient_def convertToMapAndSanitize_Nil Let_def)
  from NewEndpointClient_fields(5) [OF new] NewEndpointClient_cfg [OF new]
  obtain lg hc where lg: "Log (cfg c) = Some lg" and hc: "HTTPClient (cfg c) = Some hc"
    and ch: "OutCh (cfg c) = None"
    by auto
  have url: "URL c = ''http://localhost:3000''"
    by (rule NewEndpointClient_fields(1) [OF new])
  have down: "urlParse exWorldDown (URL c) = Inr ''localhost:3000''"
    "\<And>hc req. Do exWorldDown hc req = Inl (Error ''connection refused'')"
    by (simp_all add: exWorldDown_def url)
  have "fst (Post exWorldDown c exEvent [(''X-Foo'', ''event'')] []) =
         BlockedForever (SendOnNilChannel
           (ErrorElement (FailedToPostError (Error ''connection refused'')))) \<and>
       chanSends (snd (Post exWorldDown c exEvent [(''X-Foo'', ''event'')] [])) = []"
    by (simp add: Post_unfold [OF lg hc down(1)] down(2) Let_def ch observe_simps)
  with new show ?thesis by simp
qed

subsection \<open>The factory\<close>

text \<open>
  C8. For every call to \<^verbatim>\<open>NewEndpointClient\<close>: with no configuration bundle it starts from
  an empty one; an unset logger becomes the discard-output logger, an unset HTTP client
  becomes one with a timeout of 30 seconds whose redirect check always answers
  \<^verbatim>\<open>ErrUseLastResponse\<close>, an unset response handler becomes one that does nothing; a field
  that is set is left as supplied. This holds of the configuration whether or not the
  header normalizer then faults. When it does not fault, the client holds the normalized
  header map, the event set of the given event types, and the filled configuration.
\<close>

theorem NewEndpointClient_defaults:
  assumes new: "NewEndpointClient url hdrs cm evs d cfg0 = (cfg', r)"
    and given: "given = (case cfg0 of
                           None \<Rightarrow> \<lparr>HTTPClient = None, Log = None, ResponseHandler = None,
                                     OutCh = None\<rparr>
                         | Some g \<Rightarrow> g)"
  shows
    "(\<forall>lg. Log given = Some lg \<longrightarrow> Log cfg' = Some lg) \<and>
     (Log given = None \<longrightarrow> Log cfg' = Some \<lparr>Out = Discard, Level = 0\<rparr>) \<and>
     (\<forall>hc. HTTPClient given = Some hc \<longrightarrow> HTTPClient cfg' = Some hc) \<and>
     (HTTPClient given = None \<longrightarrow>
        (\<exists>f. HTTPClient cfg' = Some \<lparr>CheckRedirect = Some f, Timeout = 30 * 1000000000\<rparr> \<and>
             (\<forall>req via. f req via = Some ErrUseLastResponse))) \<and>
     (\<forall>h. ResponseHandler given = Some h \<longrightarrow> ResponseHandler cfg' = Some h) \<and>
     (ResponseHandler given = None \<longrightarrow>
        (\<exists>h. ResponseHandler cfg' = Some h \<and> (\<forall>e u resp. h e u resp = []))) \<and>
     (\<forall>ch. OutCh given = Some ch \<longrightarrow> OutCh cfg' = Some ch) \<and>
     (\<forall>p. convertToMapAndSanitize hdrs = Inl p \<longrightarrow> r = Inl p) \<and>
     (\<forall>headerMap. convertToMapAndSanitize hdrs = Inr headerMap \<longrightarrow>
        (\<exists>c. r = Inr c \<and> URL c = url \<and> headers c = headerMap \<and> connect c = cm \<and>
             events c = convertToMap evs \<and> (\<forall>x. mapContains (events c) x \<longleftrightarrow> x \<in> set evs) \<and>
             isEventDestination c = d \<and> cfg c = cfg'))"
proof -
  have cfg': "cfg' = \<lparr>HTTPClient = (case HTTPClient given of
                                       None \<Rightarrow> Some \<lparr>CheckRedirect = Some (\<lambda>req via. Some ErrUseLastResponse),
                                                     Timeout = defaultTimeout\<rparr>
                                     | Some hc \<Rightarrow> Some hc),
                      Log = (case Log given of None \<Rightarrow> Some \<lparr>Out = Discard, Level = 0\<rparr>
                             | Some lg \<Rightarrow> Some lg),
                      ResponseHandler = (case ResponseHandler given of
                                           None \<Rightarrow> Some (\<lambda>evtCtx url resp. [])
                                         | Some h \<Rightarrow> Some h),
                      OutCh = OutCh given\<rparr>"
    using new unfolding given
    by (cases cfg0) (auto simp: NewEndpointClient_def Let_def split: option.splits)
  have r: "r = (case convertToMapAndSanitize hdrs of
                  Inl p \<Rightarrow> Inl p
                | Inr headerMap \<Rightarrow>
                    Inr \<lparr>URL = url, headers = headerMap, connect = cm,
                         events = convertToMap evs, cfg = cfg', isEventDestination = d\<rparr>)"
    using new by (auto simp: NewEndpointClient_def Let_def split: sum.splits)
  show ?thesis
  proof (intro conjI allI impI)
    assume "HTTPClient given = None"
    then have "HTTPClient cfg' = Some \<lparr>CheckRedirect = Some (\<lambda>req via. Some ErrUseLastResponse),
        Timeout = 30 * 1000000000\<rparr>"
      by (simp add: cfg' defaultTimeout_def Second_def)
    then show "\<exists>f. HTTPClient cfg' = Some \<lparr>CheckRedirect = Some f, Timeout = 30 * 1000000000\<rparr> \<and>
             (\<forall>req via. f req via = Some ErrUseLastResponse)"
      by blast
  next
    assume "ResponseHandler given = None"
    then have "ResponseHandler cfg' = Some (\<lambda>evtCtx url resp. [])"
      by (simp add: cfg')
    then show "\<exists>h. ResponseHandler cfg' = Some h \<and> (\<forall>e u resp. h e u resp = [])"
      by blast
  next
    fix headerMap
    assume "convertToMapAndSanitize hdrs = Inr headerMap"
    then have "r = Inr \<lparr>URL = url, headers = headerMap, connect = cm,
                         events = convertToMap evs, cfg = cfg', isEventDestination = d\<rparr>"
      by (simp add: r)
    then show "\<exists>c. r = Inr c \<and> URL c = url \<and> headers c = headerMap \<and> connect c = cm \<and>
             events c = convertToMap evs \<and> (\<forall>x. mapContains (events c) x \<longleftrightarrow> x \<in> set evs) \<and>
             isEventDestination c = d \<and> cfg c = cfg'"
      by (simp add: mapContains_convertToMap)
  qed (simp_all add: cfg' r)
qed

theorem NewEndpointClient_defaults_witness:
  "Log (fst (NewEndpointClient ''http://localhost:3000'' [''X-Foo: 1'', ''X-Foo: 2''] False
              [''*''] False None)) = Some \<lparr>Out = Discard, Level = 0\<rparr> \<and>
   map_option Timeout (HTTPClient (fst (NewEndpointClient ''http://localhost:3000''
              [''X-Foo: 1'', ''X-Foo: 2''] False [''*''] False None))) = Some 30000000000 \<and>
   (case snd (NewEndpointClient ''http://localhost:3000'' [''X-Foo: 1'', ''X-Foo: 2''] False
              [''*''] False None) of
      Inl p \<Rightarrow> False
    | Inr c \<Rightarrow> headers c = [''X-Foo'' \<mapsto> ''2''] \<and> mapContains (events c) ''*'')"
proof -
  obtain cfg' r where
    new: "NewEndpointClient ''http://localhost:3000'' [''X-Foo: 1'', ''X-Foo: 2''] False
              [''*''] False None = (cfg', r)"
    by (cases "NewEndpointClient ''http://localhost:3000'' [''X-Foo: 1'', ''X-Foo: 2''] False
              [''*''] False None")
  have hm: "convertToMapAndSanitize [''X-Foo: 1'', ''X-Foo: 2''] = Inr [''X-Foo'' \<mapsto> ''2'']"
    using loop_colons [of "[''X-Foo: 1'', ''X-Foo: 2'']" Map.empty] normalizeHeaders_spec_example
    by (simp add: convertToMapAndSanitize_def normalizeHeaders_spec_def)
  from NewEndpointClient_defaults [OF new refl] hm
  have "Log cfg' = Some \<lparr>Out = Discard, Level = 0\<rparr>"
    and "\<exists>f. HTTPClient cfg' = Some \<lparr>CheckRedirect = Some f, Timeout = 30 * 1000000000\<rparr>"
    and "\<exists>c. r = Inr c \<and> headers c = [''X-Foo'' \<mapsto> ''2''] \<and> mapContains (events c) ''*''"
    by auto
  with new show ?thesis by auto
qed

text \<open>
  C10. \<^verbatim>\<open>NewEndpointClient\<close> supplies no default for the output channel: when the supplied
  bundle has none, or no bundle is supplied, the client's configuration has a \<^verbatim>\<open>nil\<close>
  output channel while its logger, HTTP client and response handler are all set; on a
  transport failure \<^verbatim>\<open>Post\<close> and \<^verbatim>\<open>PostV2\<close> then send on the \<^verbatim>\<open>nil\<close> channel, which
  blocks the call and delivers no record.
\<close>

theorem NewEndpointClient_no_default_channel:
  assumes nochan: "\<forall>given. cfg0 = Some given \<longrightarrow> OutCh given = None"
    and new: "NewEndpointClient url hdrs cm evs d cfg0 = (cfg', Inr c)"
  shows
    "OutCh (cfg c) = None \<and> Log (cfg c) \<noteq> None \<and> HTTPClient (cfg c) \<noteq> None \<and>
     ResponseHandler (cfg c) \<noteq> None \<and>
     (\<forall>w e eo ho host. urlParse w (URL c) = Inr host \<longrightarrow>
        (\<exists>hc req. HTTPClient (cfg c) = Some hc \<and>
           sentRequests (snd (Post w c e eo ho)) = [req] \<and>
           (\<forall>err. Do w hc req = Inl err \<longrightarrow>
              fst (Post w c e eo ho) =
                BlockedForever (SendOnNilChannel (ErrorElement (FailedToPostError err))) \<and>
              chanSends (snd (Post w c e eo ho)) = [])) \<and>
        (\<exists>req. sentRequests (snd (PostV2 w c e eo ho)) = [req] \<and>
           (\<forall>err. Do w DefaultClient req = Inl err \<longrightarrow>
              fst (PostV2 w c e eo ho) =
                BlockedForever (SendOnNilChannel (ErrorElement (FailedToPostError err))) \<and>
              chanSends (snd (PostV2 w c e eo ho)) = [])))"
proof -
  note cfg = NewEndpointClient_fields(5) [OF new]
  from NewEndpointClient_cfg(4) [OF new] nochan have ch: "OutCh (cfg c) = None"
    by (cases cfg0) (simp_all add: cfg)
  from cfg NewEndpointClient_cfg(1-3) [OF new]
  obtain lg hc h where lg: "Log (cfg c) = Some lg" and hc: "HTTPClient (cfg c) = Some hc"
    and h: "ResponseHandler (cfg c) = Some h"
    by auto
  have sends: "(\<exists>hc req. HTTPClient (cfg c) = Some hc \<and>
           sentRequests (snd (Post w c e eo ho)) = [req] \<and>
           (\<forall>err. Do w hc req = Inl err \<longrightarrow>
              fst (Post w c e eo ho) =
                BlockedForever (SendOnNilChannel (ErrorElement (FailedToPostError err))) \<and>
              chanSends (snd (Post w c e eo ho)) = [])) \<and>
        (\<exists>req. sentRequests (snd (PostV2 w c e eo ho)) = [req] \<and>
           (\<forall>err. Do w DefaultClient req = Inl err \<longrightarrow>
              fst (PostV2 w c e eo ho) =
                BlockedForever (SendOnNilChannel (ErrorElement (FailedToPostError err))) \<and>
              chanSends (snd (PostV2 w c e eo ho)) = []))"
    if ok: "urlParse w (URL c) = Inr host" for w e eo ho host
  proof -
    let ?req = "withHeaders eo ho
                  \<lparr>Method = ''POST'', RequestURL = URL c, Header = Map.empty,
                   Body = requestBody e, Host = host\<rparr>"
    note p1 = Post_unfold [OF lg hc ok, of e eo ho]
    note p2 = PostV2_unfold [OF ok, of e eo ho]
    have "sentRequests (snd (Post w c e eo ho)) = [?req]"
      by (simp add: p1 Let_def ch h observe_simps observe_actions split: sum.splits)
    moreover have "fst (Post w c e eo ho) =
                BlockedForever (SendOnNilChannel (ErrorElement (FailedToPostError err))) \<and>
              chanSends (snd (Post w c e eo ho)) = []" if "Do w hc ?req = Inl err" for err
      using that by (simp add: p1 Let_def ch observe_simps)
    moreover have "sentRequests (snd (PostV2 w c e eo ho)) = [?req]"
      by (simp add: p2 Let_def ch h observe_simps observe_actions split: sum.splits)
    moreover have "fst (PostV2 w c e eo ho) =
                BlockedForever (SendOnNilChannel (ErrorElement (FailedToPostError err))) \<and>
              chanSends (snd (PostV2 w c e eo ho)) = []" if "Do w DefaultClient ?req = Inl err" for err
      using that by (simp add: p2 Let_def ch observe_simps)
    ultimately show ?thesis using hc by blast
  qed
  from ch lg hc h sends show ?thesis by simp
qed

theorem NewEndpointClient_no_default_channel_witness:
  "case snd (NewEndpointClient ''http://localhost:3000'' [] False [''*''] False None) of
     Inl p \<Rightarrow> False
   | Inr c \<Rightarrow>
       OutCh (cfg c) = None \<and>
       fst (Post exWorldDown c exEvent [(''X-Foo'', ''event'')] []) =
         BlockedForever (SendOnNilChannel
           (ErrorElement (FailedToPostError (Error ''connection refused'')))) \<and>
       fst (PostV2 exWorldDown c exEvent [(''X-Foo'', ''event'')] []) =
         BlockedForever (SendOnNilChannel
           (ErrorElement (FailedToPostError (Error ''connection refused''))))"
proof -
  obtain cfg' c where
    new: "NewEndpointClient ''http://localhost:3000'' [] False [''*''] False None = (cfg', Inr c)"
    by (simp add: NewEndpointClient_def convertToMapAndSanitize_Nil Let_def)
  have nochan: "\<forall>given. (None :: EndpointConfig option) = Some given \<longrightarrow> OutCh given = None"
    by simp
  have url: "URL c = ''http://localhost:3000''"
    by (rule NewEndpointClient_fields(1) [OF new])
  have down: "urlParse exWorldDown (URL c) = Inr ''localhost:3000''"
    "\<And>hc req. Do exWorldDown hc req = Inl (Error ''connection refused'')"
    by (simp_all add: exWorldDown_def url)
  from NewEndpointClient_no_default_channel [OF nochan new] down
  have "OutCh (cfg c) = None \<and>
       fst (Post exWorldDown c exEvent [(''X-Foo'', ''event'')] []) =
         BlockedForever (SendOnNilChannel
           (ErrorElement (FailedToPostError (Error ''connection refused'')))) \<and>
       fst (PostV2 exWorldDown c exEvent [(''X-Foo'', ''event'')] []) =
         BlockedForever (SendOnNilChannel
           (ErrorElement (FailedToPostError (Error ''connection refused''))))"
    by blast
  with new show ?thesis by simp
qed

text \<open>
  C9. \<^verbatim>\<open>PostV2\<close> has the contract of \<^verbatim>\<open>Post\<close>: for a client made by
  \<^verbatim>\<open>NewEndpointClient\<close> and the same visiting orders of the two header maps, both fail
  alike on a URL that does not parse, and otherwise both hand the same request (method
  POST, the client's URL, the event's body, the same headers and Host) to a transport;
  whenever the default transport answers that request as the configured one does, they
  have the same result, channel sends, handler calls and body releases. They differ in
  the transport used (\<^verbatim>\<open>http.DefaultClient\<close> against the configured client) and in the
  debug log line, which only \<^verbatim>\<open>Post\<close> writes.
\<close>

theorem PostV2_same_contract:
  assumes new: "NewEndpointClient url hdrs cm evs d cfg0 = (cfg', Inr c)"
  shows
    "\<exists>lg hc. Log (cfg c) = Some lg \<and> HTTPClient (cfg c) = Some hc \<and>
       (\<forall>err. urlParse w (URL c) = Inl err \<longrightarrow>
          fst (Post w c e eo ho) = Returned (Some err) \<and>
          fst (PostV2 w c e eo ho) = Returned (Some err) \<and>
          snd (PostV2 w c e eo ho) = [] \<and>
          snd (Post w c e eo ho) =
            [LogDebug lg [(''prefix'', ''proxy.EndpointClient.Post'')]
               ''Forwarding event to local endpoint'']) \<and>
       (\<forall>host. urlParse w (URL c) = Inr host \<longrightarrow>
          (\<exists>req. sentRequests (snd (Post w c e eo ho)) = [req] \<and>
             sentRequests (snd (PostV2 w c e eo ho)) = [req] \<and>
             Method req = ''POST'' \<and> RequestURL req = URL c \<and> Body req = requestBody e \<and>
             usedClients (snd (Post w c e eo ho)) = [hc] \<and>
             usedClients (snd (PostV2 w c e eo ho)) = [DefaultClient] \<and>
             logLines (snd (PostV2 w c e eo ho)) = [] \<and>
             logLines (snd (Post w c e eo ho)) =
               [(lg, [(''prefix'', ''proxy.EndpointClient.Post'')],
                 ''Forwarding event to local endpoint'')] \<and>
             (Do w DefaultClient req = Do w hc req \<longrightarrow>
                fst (PostV2 w c e eo ho) = fst (Post w c e eo ho) \<and>
                chanSends (snd (PostV2 w c e eo ho)) = chanSends (snd (Post w c e eo ho)) \<and>
                handlerCalls (snd (PostV2 w c e eo ho)) = handlerCalls (snd (Post w c e eo ho)) \<and>
                bodyCloses (snd (PostV2 w c e eo ho)) = bodyCloses (snd (Post w c e eo ho)) \<and>
                snd (Post w c e eo ho) =
                  LogDebug lg [(''prefix'', ''proxy.EndpointClient.Post'')]
                    ''Forwarding event to local endpoint''
                  # viaClient hc (snd (PostV2 w c e eo ho)))))"
proof -
  from NewEndpointClient_fields(5) [OF new] NewEndpointClient_cfg(1-3) [OF new]
  obtain lg hc h where lg: "Log (cfg c) = Some lg" and hc: "HTTPClient (cfg c) = Some hc"
    and h: "ResponseHandler (cfg c) = Some h"
    by auto
  have bad: "fst (Post w c e eo ho) = Returned (Some err) \<and>
          fst (PostV2 w c e eo ho) = Returned (Some err) \<and>
          snd (PostV2 w c e eo ho) = [] \<and>
          snd (Post w c e eo ho) =
            [LogDebug lg [(''prefix'', ''proxy.EndpointClient.Post'')]
               ''Forwarding event to local endpoint'']"
    if "urlParse w (URL c) = Inl err" for err
    by (simp add: Post_bad_url [OF lg that] PostV2_bad_url [OF that])
  have good: "\<exists>req. sentRequests (snd (Post w c e eo ho)) = [req] \<and>
             sentRequests (snd (PostV2 w c e eo ho)) = [req] \<and>
             Method req = ''POST'' \<and> RequestURL req = URL c \<and> Body req = requestBody e \<and>
             usedClients (snd (Post w c e eo ho)) = [hc] \<and>
             usedClients (snd (PostV2 w c e eo ho)) = [DefaultClient] \<and>
             logLines (snd (PostV2 w c e eo ho)) = [] \<and>
             logLines (snd (Post w c e eo ho)) =
               [(lg, [(''prefix'', ''proxy.EndpointClient.Post'')],
                 ''Forwarding event to local endpoint'')] \<and>
             (Do w DefaultClient req = Do w hc req \<longrightarrow>
                fst (PostV2 w c e eo ho) = fst (Post w c e eo ho) \<and>
                chanSends (snd (PostV2 w c e eo ho)) = chanSends (snd (Post w c e eo ho)) \<and>
                handlerCalls (snd (PostV2 w c e eo ho)) = handlerCalls (snd (Post w c e eo ho)) \<and>
                bodyCloses (snd (PostV2 w c e eo ho)) = bodyCloses (snd (Post w c e eo ho)) \<and>
                snd (Post w c e eo ho) =
                  LogDebug lg [(''prefix'', ''proxy.EndpointClient.Post'')]
                    ''Forwarding event to local endpoint''
                  # viaClient hc (snd (PostV2 w c e eo ho)))"
    if ok: "urlParse w (URL c) = Inr host" for host
  proof -
    let ?req = "withHeaders eo ho
                  \<lparr>Method = ''POST'', RequestURL = URL c, Header = Map.empty,
                   Body = requestBody e, Host = host\<rparr>"
    note p1 = Post_unfold [OF lg hc ok, of e eo ho]
    note p2 = PostV2_unfold [OF ok, of e eo ho]
    have 1: "sentRequests (snd (Post w c e eo ho)) = [?req]"
      "usedClients (snd (Post w c e eo ho)) = [hc]"
      "logLines (snd (Post w c e eo ho)) =
               [(lg, [(''prefix'', ''proxy.EndpointClient.Post'')],
                 ''Forwarding event to local endpoint'')]"
      by (simp_all add: p1 Let_def h observe_simps observe_actions split: sum.splits option.splits)
    have 2: "sentRequests (snd (PostV2 w c e eo ho)) = [?req]"
      "usedClients (snd (PostV2 w c e eo ho)) = [DefaultClient]"
      "logLines (snd (PostV2 w c e eo ho)) = []"
      by (simp_all add: p2 Let_def h observe_simps observe_actions split: sum.splits option.splits)
    have 3: "Method ?req = ''POST'' \<and> RequestURL ?req = URL c \<and> Body ?req = requestBody e"
      by (simp add: withHeaders_frame)
    have 4: "fst (PostV2 w c e eo ho) = fst (Post w c e eo ho) \<and>
                chanSends (snd (PostV2 w c e eo ho)) = chanSends (snd (Post w c e eo ho)) \<and>
                handlerCalls (snd (PostV2 w c e eo ho)) = handlerCalls (snd (Post w c e eo ho)) \<and>
                bodyCloses (snd (PostV2 w c e eo ho)) = bodyCloses (snd (Post w c e eo ho)) \<and>
                snd (Post w c e eo ho) =
                  LogDebug lg [(''prefix'', ''proxy.EndpointClient.Post'')]
                    ''Forwarding event to local endpoint''
                  # viaClient hc (snd (PostV2 w c e eo ho))"
      if same: "Do w DefaultClient ?req = Do w hc ?req"
    proof (cases "Do w hc ?req")
      case (Inl err)
      with same show ?thesis
        by (cases "OutCh (cfg c)")
           (simp_all add: p1 p2 Let_def observe_simps viaClient_simps)
    next
      case (Inr resp)
      with same show ?thesis
        by (simp add: p1 p2 Let_def h observe_simps observe_actions viaClient_simps)
    qed
    from 1 2 3 4 show ?thesis by blast
  qed
  from lg hc bad good show ?thesis by blast
qed

theorem PostV2_same_contract_witness:
  "case snd (NewEndpointClient ''http://localhost:3000'' [] False [''*''] False None) of
     Inl p \<Rightarrow> False
   | Inr c \<Rightarrow>
       fst (PostV2 exWorld c exEvent [(''X-Foo'', ''event'')] []) =
         fst (Post exWorld c exEvent [(''X-Foo'', ''event'')] []) \<and>
       sentRequests (snd (PostV2 exWorld c exEvent [(''X-Foo'', ''event'')] [])) =
         sentRequests (snd (Post exWorld c exEvent [(''X-Foo'', ''event'')] [])) \<and>
       handlerCalls (snd (PostV2 exWorld c exEvent [(''X-Foo'', ''event'')] [])) =
         handlerCalls (snd (Post exWorld c exEvent [(''X-Foo'', ''event'')] [])) \<and>
       usedClients (snd (PostV2 exWorld c exEvent [(''X-Foo'', ''event'')] [])) = [DefaultClient] \<and>
       logLines (snd (PostV2 exWorld c exEvent [(''X-Foo'', ''event'')] [])) = []"
proof -
  obtain cfg' c where
    new: "NewEndpointClient ''http://localhost:3000'' [] False [''*''] False None = (cfg', Inr c)"
    by (simp add: NewEndpointClient_def convertToMapAndSanitize_Nil Let_def)
  have url: "URL c = ''http://localhost:3000''"
    by (rule NewEndpointClient_fields(1) [OF new])
  have up: "urlParse exWorld (URL c) = Inr ''localhost:3000''"
    "\<And>hc hc' req. Do exWorld hc req = Do exWorld hc' req"
    by (simp_all add: exWorld_def url)
  from PostV2_same_contract [OF new, of exWorld exEvent "[(''X-Foo'', ''event'')]" "[]"] up
  have "fst (PostV2 exWorld c exEvent [(''X-Foo'', ''event'')] []) =
         fst (Post exWorld c exEvent [(''X-Foo'', ''event'')] []) \<and>
       sentRequests (snd (PostV2 exWorld c exEvent [(''X-Foo'', ''event'')] [])) =
         sentRequests (snd (Post exWorld c exEvent [(''X-Foo'', ''event'')] [])) \<and>
       handlerCalls (snd (PostV2 exWorld c exEvent [(''X-Foo'', ''event'')] [])) =
         handlerCalls (snd (Post exWorld c exEvent [(''X-Foo'', ''event'')] [])) \<and>
       usedClients (snd (PostV2 exWorld c exEvent [(''X-Foo'', ''event'')] [])) = [DefaultClient] \<and>
       logLines (snd (PostV2 exWorld c exEvent [(''X-Foo'', ''event'')] [])) = []"
    by (metis (no_types, lifting))
  with new show ?thesis by simp
qed

end
